theory Spec2Isabelle
  imports Complex_Main "HOL-Library.Multiset"
begin

section \<open>Strings\<close>

text \<open>
  JavaScript strings are modelled as \<^typ>\<open>string\<close>: a list of characters, each a code
  unit in the range U+0000..U+00FF. Lengths and indices count characters, as
  \<^verbatim>\<open>String.prototype.length\<close> counts code units.
\<close>

text \<open>\<^verbatim>\<open>toLowerCase\<close> on one code unit: A..Z and the Latin-1 capitals move up by 32.\<close>

definition lower_char :: "char \<Rightarrow> char" where
  "lower_char c =
     (let n = (of_char c :: nat)
      in if (65 \<le> n \<and> n \<le> 90) \<or> (192 \<le> n \<and> n \<le> 222 \<and> n \<noteq> 215)
         then char_of (n + 32) else c)"

definition toLowerCase :: "string \<Rightarrow> string" where
  "toLowerCase s = map lower_char s"

text \<open>The white space of \<^verbatim>\<open>\s\<close> and of \<^verbatim>\<open>trim\<close>: tab, line feed, vertical tab,
  form feed, carriage return, space and the no-break space.\<close>

definition isSpace :: "char \<Rightarrow> bool" where
  "isSpace c = (c \<in> set [CHR 0x09, CHR 0x0A, CHR 0x0B, CHR 0x0C, CHR 0x0D, CHR 0x20, CHR 0xA0])"

definition trim :: "string \<Rightarrow> string" where
  "trim s = rev (dropWhile isSpace (rev (dropWhile isSpace s)))"

fun startsWith :: "string \<Rightarrow> string \<Rightarrow> bool" where
  "startsWith s [] = True"
| "startsWith [] (p # ps) = False"
| "startsWith (c # cs) (p # ps) = (c = p \<and> startsWith cs ps)"

text \<open>\<^verbatim>\<open>s.includes(p)\<close>: \<open>p\<close> occurs in \<open>s\<close> as a contiguous substring.\<close>

fun str_includes :: "string \<Rightarrow> string \<Rightarrow> bool" where
  "str_includes [] p = (p = [])"
| "str_includes (c # cs) p = (startsWith (c # cs) p \<or> str_includes cs p)"

text \<open>\<^verbatim>\<open>s.split(' ')\<close>: the pieces between single space characters; an empty string
  gives one empty piece, two adjacent spaces give an empty piece between them.\<close>

fun split_space :: "string \<Rightarrow> string list" where
  "split_space [] = [[]]"
| "split_space (c # cs) =
     (if c = CHR '' '' then [] # split_space cs
      else (case split_space cs of [] \<Rightarrow> [[c]] | t # ts \<Rightarrow> (c # t) # ts))"

text \<open>\<^verbatim>\<open>xs.join(sep)\<close>.\<close>

fun join :: "string \<Rightarrow> string list \<Rightarrow> string" where
  "join sep [] = []"
| "join sep [x] = x"
| "join sep (x # y # ys) = x @ sep @ join sep (y # ys)"

text \<open>\<^verbatim>\<open>xs.slice(0, n)\<close>: a negative \<open>n\<close> counts from the end.\<close>

definition slice0 :: "'a list \<Rightarrow> int \<Rightarrow> 'a list" where
  "slice0 xs n = (if n < 0 then take (length xs - nat (- n)) xs else take (nat n) xs)"

text \<open>\<^verbatim>\<open>s.lastIndexOf(c)\<close>: the greatest index holding \<open>c\<close>, or \<open>-1\<close>.\<close>

fun lastIndexOf :: "string \<Rightarrow> char \<Rightarrow> int" where
  "lastIndexOf [] c = - 1"
| "lastIndexOf (x # xs) c =
     (let r = lastIndexOf xs c
      in if 0 \<le> r then r + 1 else if x = c then 0 else - 1)"

text \<open>\<^verbatim>\<open>s.split(/\s+/)\<close>: the pieces between maximal runs of white space.\<close>

function split_ws :: "string \<Rightarrow> string list" where
  "split_ws s =
     (let tok = takeWhile (\<lambda>c. \<not> isSpace c) s;
          rest = dropWhile (\<lambda>c. \<not> isSpace c) s
      in if rest = [] then [tok] else tok # split_ws (dropWhile isSpace rest))"
  by pat_completeness auto
termination
proof (relation "measure length")
  show "wf (measure length)" by simp
next
  fix s :: string and tok rest
  assume r: "rest = dropWhile (\<lambda>c. \<not> isSpace c) s" and ne: "rest \<noteq> []"
  from ne obtain x xs where rx: "rest = x # xs" by (cases rest) auto
  from r rx have "dropWhile (\<lambda>c. \<not> isSpace c) s = x # xs" by simp
  then have "isSpace x" by (simp add: dropWhile_eq_Cons_conv)
  then have "length (dropWhile isSpace rest) \<le> length xs"
    by (simp add: rx length_dropWhile_le)
  also have "length xs < length rest" by (simp add: rx)
  also have "length rest \<le> length s" by (simp add: r length_dropWhile_le)
  finally show "(dropWhile isSpace rest, s) \<in> measure length" by simp
qed

declare split_ws.simps [simp del]

section \<open>The unified result schema\<close>

text \<open>
  Scores are JavaScript numbers; they are modelled as exact rationals (no rounding, no
  NaN). Timestamps are milliseconds since the epoch; \<open>last_updated\<close> is \<open>None\<close> when
  the field is null, absent or does not parse as a date (the ranker then adds no
  recency boost in each of these cases). \<open>title\<close> is \<open>None\<close> when the field is not a
  string (absent, null, or a value of another type). The opaque \<open>metadata\<close> object is
  left out.
\<close>

record search_result =
  res_id :: string
  title :: "string option"
  url :: string
  snippet :: string
  content :: "string option"
  score :: rat
  source :: string
  category :: "string option"
  res_section :: "string option"
  last_updated :: "int option"

section \<open>Exceptions\<close>

text \<open>What the code can throw: a rejected axios request, or a \<^verbatim>\<open>TypeError\<close> (a
  property read on \<^verbatim>\<open>null\<close> or \<^verbatim>\<open>undefined\<close>, a call of something that is not a
  function).\<close>

datatype error = AxiosError | TypeError

text \<open>\<^verbatim>\<open>xs.map(f)\<close> for a callback that may throw: the first throw ends the loop.\<close>

fun map_try :: "('a \<Rightarrow> error + 'b) \<Rightarrow> 'a list \<Rightarrow> error + 'b list" where
  "map_try f [] = Inr []"
| "map_try f (x # xs) =
     (case f x of
        Inl e \<Rightarrow> Inl e
      | Inr y \<Rightarrow> (case map_try f xs of Inl e \<Rightarrow> Inl e | Inr ys \<Rightarrow> Inr (y # ys)))"

section \<open>Result ranking\<close>

text \<open>\<^verbatim>\<open>Array.prototype.sort(cmp)\<close> is stable; with a comparator that is a difference
  of keys the result is the stable ordering, computed here by insertion.\<close>

fun insert_cmp :: "('a \<Rightarrow> 'a \<Rightarrow> rat) \<Rightarrow> 'a \<Rightarrow> 'a list \<Rightarrow> 'a list" where
  "insert_cmp cmp x [] = [x]"
| "insert_cmp cmp x (y # ys) =
     (if cmp x y \<le> 0 then x # y # ys else y # insert_cmp cmp x ys)"

definition array_sort :: "('a \<Rightarrow> 'a \<Rightarrow> rat) \<Rightarrow> 'a list \<Rightarrow> 'a list" where
  "array_sort cmp xs = foldr (insert_cmp cmp) xs []"

definition queryTerms :: "string \<Rightarrow> string list" where
  "queryTerms query = filter (\<lambda>term. 2 < length term) (split_space (toLowerCase query))"

definition sourcePriority :: "string \<rightharpoonup> rat" where
  "sourcePriority = [''zendesk'' \<mapsto> 10, ''knowledge_base'' \<mapsto> 8, ''docs'' \<mapsto> 6]"

text \<open>
  The body of the \<^verbatim>\<open>map\<close> callback of \<^verbatim>\<open>rankResults\<close>; \<open>now\<close> is the value of
  \<^verbatim>\<open>new Date()\<close> in milliseconds. The callback evaluates
  \<^verbatim>\<open>result.title.toLowerCase()\<close> for every result (in the test for the whole phrase),
  which throws a \<^verbatim>\<open>TypeError\<close> when the title is not a string.
\<close>

definition rank_one :: "int \<Rightarrow> string \<Rightarrow> search_result \<Rightarrow> error + search_result" where
  "rank_one now query result =
     (case title result of
        None \<Rightarrow> Inl TypeError
      | Some t \<Rightarrow>
          Inr (let score0 = score result;
                   titleMatches = length (filter (\<lambda>term. str_includes (toLowerCase t) term)
                                            (queryTerms query));
                   score1 = score0 + of_nat titleMatches * 20;
                   score2 = (if str_includes (toLowerCase t) (toLowerCase query)
                             then score1 + 30 else score1);
                   score3 = score2
                            + (case sourcePriority (source result) of None \<Rightarrow> 0 | Some p \<Rightarrow> p);
                   score4 = (case last_updated result of
                               None \<Rightarrow> score3
                             | Some u \<Rightarrow>
                                 (let daysSinceUpdate =
                                        (of_int (now - u) :: rat) / (1000 * 60 * 60 * 24);
                                      s = (if daysSinceUpdate < 30 then score3 + 5 else score3)
                                  in if daysSinceUpdate < 7 then s + 10 else s))
               in result\<lparr>score := score4\<rparr>))"

text \<open>\<^verbatim>\<open>rankResults\<close> has no \<^verbatim>\<open>try\<close>: what the callback throws, it throws.\<close>

definition rankResults ::
  "int \<Rightarrow> search_result list \<Rightarrow> string \<Rightarrow> error + search_result list" where
  "rankResults now results query =
     (case map_try (rank_one now query) results of
        Inl e \<Rightarrow> Inl e
      | Inr rescored \<Rightarrow> Inr (array_sort (\<lambda>a b. score b - score a) rescored))"

section \<open>Text normalizer\<close>

text \<open>The remainder of a string after its first \<open>>\<close>, if it has one.\<close>

fun after_gt :: "string \<Rightarrow> string option" where
  "after_gt [] = None"
| "after_gt (c # cs) = (if c = CHR ''>'' then Some cs else after_gt cs)"

text \<open>\<^verbatim>\<open>s.replace(/<[^>]*>/g, ' ')\<close>: scanning from the left, a \<open><\<close> that has a \<open>>\<close>
  somewhere after it is replaced, together with everything up to the first such
  \<open>>\<close>, by one space; a \<open><\<close> with no \<open>>\<close> after it stays.\<close>

function strip_tags :: "string \<Rightarrow> string" where
  "strip_tags [] = []"
| "strip_tags (c # cs) =
     (if c = CHR ''<'' then
        (case after_gt cs of
           Some rest \<Rightarrow> CHR '' '' # strip_tags rest
         | None \<Rightarrow> c # strip_tags cs)
      else c # strip_tags cs)"
  by pat_completeness auto
termination
proof (relation "measure length")
  have shorter: "after_gt xs = Some r \<Longrightarrow> length r < length xs" for xs r
    by (induction xs) (auto split: if_splits)
  show "wf (measure length)" by simp
  show "(rest, c # cs) \<in> measure length" if "after_gt cs = Some rest" for c cs rest
    using shorter [OF that] by simp
qed simp_all

text \<open>\<^verbatim>\<open>s.replace(/pat/g, rep)\<close> for a literal, non-empty pattern: the occurrences
  are replaced from the left, without overlap.\<close>

fun replace_all :: "string \<Rightarrow> string \<Rightarrow> string \<Rightarrow> string" where
  "replace_all pat rep [] = []"
| "replace_all pat rep (c # cs) =
     (if pat \<noteq> [] \<and> startsWith (c # cs) pat
      then rep @ replace_all pat rep (drop (length pat - 1) cs)
      else c # replace_all pat rep cs)"

text \<open>\<^verbatim>\<open>s.replace(/\s+/g, ' ')\<close>: every maximal run of white space becomes one space.\<close>

function collapse_ws :: "string \<Rightarrow> string" where
  "collapse_ws [] = []"
| "collapse_ws (c # cs) =
     (if isSpace c then CHR '' '' # collapse_ws (dropWhile isSpace cs)
      else c # collapse_ws cs)"
  by pat_completeness auto
termination
  by (relation "measure length") (auto simp: less_Suc_eq_le length_dropWhile_le)

definition no_preview :: string where
  "no_preview = ''No preview available''"

text \<open>The chain of replacements and the final \<^verbatim>\<open>trim\<close> that produce \<^verbatim>\<open>cleanText\<close>.\<close>

definition clean_text :: "string \<Rightarrow> string" where
  "clean_text htmlText =
     trim (collapse_ws
       (replace_all ''&#39;'' [CHR 0x27]
       (replace_all ''&quot;'' [CHR 0x22]
       (replace_all ''&gt;'' ''>''
       (replace_all ''&lt;'' ''<''
       (replace_all ''&amp;'' ''&''
       (replace_all ''&nbsp;'' '' ''
       (strip_tags htmlText))))))))"

text \<open>
  \<^verbatim>\<open>stripHtmlAndCreateSnippet(htmlText, maxLength)\<close>. The argument is \<open>None\<close> when it is
  not a string (null, undefined, any other type). \<open>maxLength\<close> is a length (the program
  only passes 200); the product \<^verbatim>\<open>maxLength * 0.7\<close> is computed exactly.
\<close>

definition stripHtmlAndCreateSnippet :: "string option \<Rightarrow> nat \<Rightarrow> string" where
  "stripHtmlAndCreateSnippet htmlText maxLength =
     (case htmlText of
        None \<Rightarrow> no_preview
      | Some h \<Rightarrow>
          if h = [] then no_preview
          else
            (let cleanText = clean_text h;
                 cleanText' =
                   (if maxLength < length cleanText then
                      (let truncated = take maxLength cleanText;
                           lastSpaceIndex = lastIndexOf truncated CHR '' ''
                       in if (of_nat maxLength :: rat) * (7 / 10) < of_int lastSpaceIndex
                          then take (nat lastSpaceIndex) truncated @ ''...''
                          else truncated @ ''...'')
                    else cleanText)
             in if cleanText' = [] then no_preview else cleanText'))"

section \<open>Source adapters\<close>

subsection \<open>Upstream replies\<close>

text \<open>
  An article of the help-center search response. The numeric \<open>id\<close> and \<open>section_id\<close>
  are held as the decimal strings that template interpolation gives; \<open>art_score\<close> is
  \<open>None\<close> when the field is absent; \<open>art_title\<close> is \<open>None\<close> when the article has no
  title or one that is not a string.
\<close>

record article =
  art_id :: string
  art_title :: "string option"
  html_url :: string
  body :: "string option"
  art_score :: "rat option"
  section_id :: "string option"
  updated_at :: "int option"

text \<open>
  The outcome of the GET on \<^verbatim>\<open>/help_center/articles/search.json\<close>: the request fails
  (time-out after 5 seconds, network error, status outside 2xx: axios rejects); or the
  body has no \<open>results\<close> array, or one that holds \<^verbatim>\<open>null\<close>, so that mapping it throws;
  or it has an array of articles.
\<close>

datatype zendesk_reply = ZFailed | ZNoResults | ZResults "article list"

text \<open>A document of the search index: title \<open>t\<close>, URL path \<open>u\<close>, breadcrumb segments
  \<open>b\<close> and identifier \<open>i\<close>; a field that the document lacks is \<open>None\<close>.\<close>

record doc =
  doc_t :: "string option"
  doc_u :: "string option"
  doc_b :: "string list option"
  doc_i :: string

text \<open>
  The outcome of the GET on the documentation search index: the request fails; the body
  is missing or not an array; its first element is missing or has no \<open>documents\<close>; the
  \<open>documents\<close> field is not an array, or holds an element on which the callback
  throws (\<^verbatim>\<open>null\<close>, a title that is not a string, breadcrumbs that are not an array);
  or it is an array of documents whose fields, where present, have their types.
\<close>

datatype docs_reply = DFailed | DNotArray | DNoDocuments | DBadDocuments | DIndex "doc list"

text \<open>The world outside: what each request would be answered with. The help-center
  endpoint is given the \<open>query\<close> and \<open>per_page\<close> parameters.\<close>

record upstream =
  help_center_search :: "string \<Rightarrow> int \<Rightarrow> zendesk_reply"
  search_index :: docs_reply

subsection \<open>Help center\<close>

definition zendesk_result :: "article \<Rightarrow> search_result" where
  "zendesk_result a =
     \<lparr>res_id = ''zendesk_'' @ art_id a,
      title = art_title a,
      url = html_url a,
      snippet = stripHtmlAndCreateSnippet (body a) 200,
      content = body a,
      score = (case art_score a of None \<Rightarrow> 0 | Some s \<Rightarrow> s),
      source = ''zendesk'',
      category = (case section_id a of None \<Rightarrow> None | Some i \<Rightarrow> Some (''Section '' @ i)),
      res_section = section_id a,
      last_updated = updated_at a\<rparr>"

text \<open>The body of the \<^verbatim>\<open>try\<close> block of \<^verbatim>\<open>searchZendesk\<close>.\<close>

definition searchZendesk_try :: "upstream \<Rightarrow> string \<Rightarrow> int \<Rightarrow> error + search_result list" where
  "searchZendesk_try up query limit =
     (case help_center_search up (trim query) limit of
        ZFailed \<Rightarrow> Inl AxiosError
      | ZNoResults \<Rightarrow> Inl TypeError
      | ZResults articles \<Rightarrow> Inr (map zendesk_result articles))"

definition searchZendesk :: "upstream \<Rightarrow> string \<Rightarrow> int \<Rightarrow> search_result list" where
  "searchZendesk up query limit =
     (case searchZendesk_try up query limit of Inl e \<Rightarrow> [] | Inr rs \<Rightarrow> rs)"

subsection \<open>Knowledge base\<close>

definition kb_result :: "article \<Rightarrow> search_result" where
  "kb_result a =
     \<lparr>res_id = ''kb_'' @ art_id a,
      title = art_title a,
      url = html_url a,
      snippet = stripHtmlAndCreateSnippet (body a) 200,
      content = body a,
      score = (case art_score a of None \<Rightarrow> 0 | Some s \<Rightarrow> s) * (8 / 10),
      source = ''knowledge_base'',
      category = Some ''Knowledge Base'',
      res_section = section_id a,
      last_updated = updated_at a\<rparr>"

definition kb_query :: "string \<Rightarrow> string" where
  "kb_query query =
     trim query @ '' (FAQ OR troubleshooting OR '' @ [CHR 0x22] @ ''how to'' @ [CHR 0x22]
       @ '' OR problem OR issue OR error)''"

definition searchKnowledgeBase_try ::
  "upstream \<Rightarrow> string \<Rightarrow> int \<Rightarrow> error + search_result list" where
  "searchKnowledgeBase_try up query limit =
     (case help_center_search up (kb_query query) limit of
        ZFailed \<Rightarrow> Inl AxiosError
      | ZNoResults \<Rightarrow> Inl TypeError
      | ZResults articles \<Rightarrow> Inr (map kb_result articles))"

definition searchKnowledgeBase :: "upstream \<Rightarrow> string \<Rightarrow> int \<Rightarrow> search_result list" where
  "searchKnowledgeBase up query limit =
     (case searchKnowledgeBase_try up query limit of Inl e \<Rightarrow> [] | Inr rs \<Rightarrow> rs)"

subsection \<open>Documentation index\<close>

text \<open>The score that the \<^verbatim>\<open>forEach\<close> callback accumulates for one document.\<close>

definition doc_score :: "string \<Rightarrow> string list \<Rightarrow> string \<Rightarrow> string \<Rightarrow> int" where
  "doc_score queryLower queryWords titleLower breadcrumbText =
     (let score0 = 0;
          score1 = (if str_includes titleLower queryLower then score0 + 100 else score0);
          score2 = (if str_includes breadcrumbText queryLower then score1 + 50 else score1)
      in foldl (\<lambda>sc word.
                  (let sc' = (if str_includes titleLower word then sc + 20 else sc)
                   in if str_includes breadcrumbText word then sc' + 10 else sc'))
           score2 queryWords)"

text \<open>
  One round of the \<^verbatim>\<open>forEach\<close> callback: the result it pushes, if any. The separator
  of the snippet, U+203A, lies outside the modelled code units and is written \<open>>\<close>;
  nothing reads the snippet.
\<close>

definition doc_entry :: "int \<Rightarrow> string \<Rightarrow> string list \<Rightarrow> doc \<Rightarrow> search_result option" where
  "doc_entry now queryLower queryWords d =
     (case (doc_t d, doc_u d) of
        (Some t, Some u) \<Rightarrow>
          if t = [] \<or> u = [] then None
          else
            (let titleLower = toLowerCase t;
                 breadcrumbText = (case doc_b d of Some b \<Rightarrow> toLowerCase (join '' '' b) | None \<Rightarrow> []);
                 sc = doc_score queryLower queryWords titleLower breadcrumbText
             in if 0 < sc then
                  Some \<lparr>res_id = ''docs_'' @ doc_i d,
                        title = Some t,
                        url = ''https://help.getmaintainx.com'' @ u,
                        snippet = (case doc_b d of Some b \<Rightarrow> join '' > '' b | None \<Rightarrow> ''Documentation'')
                                  @ '' - '' @ t,
                        content = Some (t @ '' - '' @ (case doc_b d of Some b \<Rightarrow> join '', '' b | None \<Rightarrow> [])),
                        score = of_int sc * (9 / 10),
                        source = ''docs'',
                        category = (case doc_b d of
                                      Some (b0 # bs) \<Rightarrow> Some b0
                                    | _ \<Rightarrow> Some ''Documentation''),
                        res_section = (case doc_b d of
                                         Some (b0 # b1 # bs) \<Rightarrow> Some b1
                                       | _ \<Rightarrow> None),
                        last_updated = Some now\<rparr>
                else None)
      | _ \<Rightarrow> None)"

text \<open>The body of the \<^verbatim>\<open>try\<close> block of \<^verbatim>\<open>searchDocumentation\<close>; \<open>now\<close> is the
  time at which the adapter runs.\<close>

definition searchDocumentation_try ::
  "upstream \<Rightarrow> int \<Rightarrow> string \<Rightarrow> int \<Rightarrow> error + search_result list" where
  "searchDocumentation_try up now query limit =
     (case search_index up of
        DFailed \<Rightarrow> Inl AxiosError
      | DNotArray \<Rightarrow> Inr []
      | DNoDocuments \<Rightarrow> Inr []
      | DBadDocuments \<Rightarrow> Inl TypeError
      | DIndex documents \<Rightarrow>
          (let queryLower = trim (toLowerCase query);
               queryWords = filter (\<lambda>word. 2 < length word) (split_ws queryLower);
               results = List.map_filter (doc_entry now queryLower queryWords) documents;
               sorted_results = array_sort (\<lambda>a b. score b - score a) results
           in Inr (slice0 sorted_results limit)))"

definition searchDocumentation :: "upstream \<Rightarrow> int \<Rightarrow> string \<Rightarrow> int \<Rightarrow> search_result list" where
  "searchDocumentation up now query limit =
     (case searchDocumentation_try up now query limit of Inl e \<Rightarrow> [] | Inr rs \<Rightarrow> rs)"

section \<open>The unified search endpoint\<close>

text \<open>
  The fields of the request body that the handler uses. \<open>query\<close> is any JSON value.
  \<open>sources\<close> is \<open>None\<close> when the body omits it (the destructuring default then
  applies) and otherwise \<^verbatim>\<open>null\<close>, an array of strings, a string, or a value of another
  type (a number, a boolean, an object). \<open>limit\<close> is \<open>None\<close> when omitted and otherwise
  an integer. The fields \<open>filters\<close>, \<open>include_snippets\<close> and \<open>sort_by\<close> are read and
  never used.
\<close>

datatype jsval = JUndefined | JNull | JBool bool | JNum rat | JStr string | JObject

datatype sources_val = SrcNull | SrcArray "string list" | SrcString string | SrcOther

record request =
  req_query :: jsval
  req_limit :: "int option"
  req_sources :: "sources_val option"

fun truthy :: "jsval \<Rightarrow> bool" where
  "truthy JUndefined = False"
| "truthy JNull = False"
| "truthy (JBool b) = b"
| "truthy (JNum n) = (n \<noteq> 0)"
| "truthy (JStr s) = (s \<noteq> [])"
| "truthy JObject = True"

fun is_string :: "jsval \<Rightarrow> bool" where
  "is_string (JStr s) = True"
| "is_string v = False"

fun string_of :: "jsval \<Rightarrow> string" where
  "string_of (JStr s) = s"
| "string_of v = []"

text \<open>The condition of the input check:
  \<^verbatim>\<open>!query || typeof query !== 'string' || query.trim().length < 2\<close>.\<close>

definition invalid_query :: "jsval \<Rightarrow> bool" where
  "invalid_query v = (\<not> truthy v \<or> \<not> is_string v \<or> length (trim (string_of v)) < 2)"

text \<open>A promise after \<^verbatim>\<open>Promise.allSettled\<close>.\<close>

datatype 'a settled = Fulfilled 'a | Rejected

text \<open>The three adapters, as the handler sees them: called with the query and a limit,
  each settles.\<close>

record adapters =
  zendesk_adapter :: "string \<Rightarrow> int \<Rightarrow> search_result list settled"
  docs_adapter :: "string \<Rightarrow> int \<Rightarrow> search_result list settled"
  kb_adapter :: "string \<Rightarrow> int \<Rightarrow> search_result list settled"

text \<open>An adapter call: the source tag, the query and the limit passed.\<close>

type_synonym adapter_call = "string \<times> string \<times> int"

record error_body =
  err_success :: bool
  err_error :: string
  err_query :: jsval

text \<open>The body of a 200 response, without its \<open>timestamp\<close>.\<close>

record success_body =
  resp_success :: bool
  resp_results :: "search_result list"
  resp_total :: nat
  resp_returned :: nat
  resp_query :: string
  resp_sources :: "string list"
  resp_api_version :: string

text \<open>The body of a 500 response, without its \<open>details\<close> (the message of the error
  or a fixed text, by the environment) and its \<open>timestamp\<close>.\<close>

record failure_body =
  fail_success :: bool
  fail_error :: string

datatype response = Bad_Request error_body | Success success_body | Server_Error failure_body

text \<open>What the \<^verbatim>\<open>catch\<close> of the handler answers.\<close>

definition service_error :: response where
  "service_error =
     Server_Error \<lparr>fail_success = False, fail_error = ''Unified search service error''\<rparr>"

text \<open>The destructuring defaults of \<open>limit\<close> and \<open>sources\<close>: they apply to a field that
  is absent, not to \<^verbatim>\<open>null\<close>.\<close>

definition limit_of :: "request \<Rightarrow> int" where
  "limit_of req = (case req_limit req of None \<Rightarrow> 10 | Some l \<Rightarrow> l)"

definition sources_of :: "request \<Rightarrow> sources_val" where
  "sources_of req =
     (case req_sources req of
        None \<Rightarrow> SrcArray [''zendesk'', ''docs'', ''knowledge_base'']
      | Some v \<Rightarrow> v)"

text \<open>
  \<^verbatim>\<open>sources.includes(tag)\<close>: membership for an array, a substring test for a string, a
  \<^verbatim>\<open>TypeError\<close> for a value that has no such method.
\<close>

fun sources_includes :: "sources_val \<Rightarrow> string \<Rightarrow> error + bool" where
  "sources_includes (SrcArray ss) tag = Inr (tag \<in> set ss)"
| "sources_includes (SrcString s) tag = Inr (str_includes s tag)"
| "sources_includes SrcNull tag = Inl TypeError"
| "sources_includes SrcOther tag = Inl TypeError"

text \<open>
  The calls that the handler pushes on \<^verbatim>\<open>searchPromises\<close>, in the order of the three
  \<^verbatim>\<open>if\<close> statements; \<^verbatim>\<open>Math.ceil\<close> of the share is computed exactly. Whether
  \<^verbatim>\<open>includes\<close> throws does not depend on the tag, so a throw comes at the first test,
  before any call.
\<close>

definition dispatch :: "string \<Rightarrow> int \<Rightarrow> sources_val \<Rightarrow> error + adapter_call list" where
  "dispatch query limit sources =
     (case sources_includes sources ''zendesk'' of
        Inl e \<Rightarrow> Inl e
      | Inr z \<Rightarrow>
          (case sources_includes sources ''docs'' of
             Inl e \<Rightarrow> Inl e
           | Inr d \<Rightarrow>
               (case sources_includes sources ''knowledge_base'' of
                  Inl e \<Rightarrow> Inl e
                | Inr k \<Rightarrow>
                    Inr ((if z then [(''zendesk'', query, \<lceil>(of_int limit :: rat) * (4 / 10)\<rceil>)]
                          else [])
                         @ (if d then [(''docs'', query, \<lceil>(of_int limit :: rat) * (3 / 10)\<rceil>)]
                            else [])
                         @ (if k then [(''knowledge_base'', query,
                                        \<lceil>(of_int limit :: rat) * (3 / 10)\<rceil>)]
                            else [])))))"

definition invoke :: "adapters \<Rightarrow> adapter_call \<Rightarrow> search_result list settled" where
  "invoke ad c =
     (case c of (src, query, limit) \<Rightarrow>
        if src = ''zendesk'' then zendesk_adapter ad query limit
        else if src = ''docs'' then docs_adapter ad query limit
        else kb_adapter ad query limit)"

text \<open>The \<^verbatim>\<open>forEach\<close> over the settled promises.\<close>

definition combine :: "search_result list settled list \<Rightarrow> search_result list" where
  "combine searchResults =
     foldl (\<lambda>allResults result.
              (case result of
                 Fulfilled v \<Rightarrow> if 0 < length v then allResults @ v else allResults
               | Rejected \<Rightarrow> allResults))
       [] searchResults"

text \<open>
  The handler of \<^verbatim>\<open>POST /api/search/unified\<close>, after authentication: the response
  and the adapter calls made, in order. \<open>now\<close> is the time at which the ranker runs.
  The whole body is inside \<^verbatim>\<open>try\<close>, and the \<^verbatim>\<open>catch\<close> answers 500. The first
  statement after the destructuring logs \<^verbatim>\<open>sources.length\<close>, which throws when
  \<open>sources\<close> is \<^verbatim>\<open>null\<close>; the input check comes after it.
\<close>

definition unified_search :: "adapters \<Rightarrow> int \<Rightarrow> request \<Rightarrow> response \<times> adapter_call list" where
  "unified_search ad now req =
     (let query = req_query req;
          limit = limit_of req;
          sources = sources_of req
      in if sources = SrcNull then (service_error, [])
         else if invalid_query query then
           (Bad_Request \<lparr>err_success = False,
                         err_error = ''Query must be at least 2 characters long'',
                         err_query = (if truthy query then query else JStr [])\<rparr>,
            [])
         else
           (let q = string_of query
            in case dispatch q limit sources of
                 Inl e \<Rightarrow> (service_error, [])
               | Inr calls \<Rightarrow>
                   (let enabledSources = map fst calls;
                        searchResults = map (invoke ad) calls;
                        allResults = combine searchResults
                    in case rankResults now allResults q of
                         Inl e \<Rightarrow> (service_error, calls)
                       | Inr rankedResults \<Rightarrow>
                           (let finalResults = slice0 rankedResults limit
                            in (Success \<lparr>resp_success = True,
                                         resp_results = finalResults,
                                         resp_total = length allResults,
                                         resp_returned = length finalResults,
                                         resp_query = trim q,
                                         resp_sources = enabledSources,
                                         resp_api_version = ''unified_v1''\<rparr>,
                                calls)))))"

text \<open>The adapters of the program: each is an \<^verbatim>\<open>async\<close> function whose whole body
  is inside \<^verbatim>\<open>try\<close>/\<^verbatim>\<open>catch\<close>, so its promise is fulfilled with what it returns.
  \<open>t\<close> is the time at which the documentation adapter runs.\<close>

definition program_adapters :: "upstream \<Rightarrow> int \<Rightarrow> adapters" where
  "program_adapters up t =
     \<lparr>zendesk_adapter = (\<lambda>query limit. Fulfilled (searchZendesk up query limit)),
      docs_adapter = (\<lambda>query limit. Fulfilled (searchDocumentation up t query limit)),
      kb_adapter = (\<lambda>query limit. Fulfilled (searchKnowledgeBase up query limit))\<rparr>"

section \<open>Notions of the specification\<close>

text \<open>What a settled promise contributes to the merged list.\<close>

fun settled_value :: "'a list settled \<Rightarrow> 'a list" where
  "settled_value (Fulfilled v) = v"
| "settled_value Rejected = []"

text \<open>The title of a result as text.\<close>

definition title_text :: "search_result \<Rightarrow> string" where
  "title_text r = (case title r of Some t \<Rightarrow> t | None \<Rightarrow> [])"

text \<open>The ranker's score as the specification words it: the tokens of the query are
  separated by white space.\<close>

definition spec_rank_score :: "int \<Rightarrow> string \<Rightarrow> search_result \<Rightarrow> rat" where
  "spec_rank_score now query r =
     (let tokens = filter (\<lambda>t. 2 < length t) (split_ws (toLowerCase query));
          titleLower = toLowerCase (title_text r)
      in score r
         + 20 * of_nat (length (filter (\<lambda>t. str_includes titleLower t) tokens))
         + (if str_includes titleLower (toLowerCase query) then 30 else 0)
         + (if source r = ''zendesk'' then 10 else if source r = ''knowledge_base'' then 8
            else if source r = ''docs'' then 6 else 0)
         + (case last_updated r of
              None \<Rightarrow> 0
            | Some t \<Rightarrow> (if now - t < 30 * 86400000 then 5 else 0)
                      + (if now - t < 7 * 86400000 then 10 else 0)))"

text \<open>The lexical score of a document in closed form, for a lowercase phrase and its
  words.\<close>

definition lexical_score :: "string \<Rightarrow> string list \<Rightarrow> string \<Rightarrow> string list \<Rightarrow> int" where
  "lexical_score phrase queryWords t b =
     (let titleLower = toLowerCase t; breadcrumbText = toLowerCase (join '' '' b)
      in (if str_includes titleLower phrase then 100 else 0)
         + (if str_includes breadcrumbText phrase then 50 else 0)
         + sum_list (map (\<lambda>w. (if str_includes titleLower w then 20 else 0)
                              + (if str_includes breadcrumbText w then 10 else 0)) queryWords))"

text \<open>The lexical score as the specification words it: the phrase is the lowercase
  full query.\<close>

definition spec_lexical_score :: "string \<Rightarrow> string \<Rightarrow> string list \<Rightarrow> int" where
  "spec_lexical_score query t b =
     lexical_score (toLowerCase query)
       (filter (\<lambda>w. 2 < length w) (split_ws (toLowerCase query))) t b"

text \<open>The lexical score with the phrase that the adapter uses: the lowercase query,
  trimmed.\<close>

definition trimmed_lexical_score :: "string \<Rightarrow> string \<Rightarrow> string list \<Rightarrow> int" where
  "trimmed_lexical_score query t b =
     lexical_score (trim (toLowerCase query))
       (filter (\<lambda>w. 2 < length w) (split_ws (trim (toLowerCase query)))) t b"

text \<open>A document that has both a title and a URL.\<close>

definition titled :: "doc \<Rightarrow> bool" where
  "titled d = (doc_t d \<noteq> None \<and> doc_t d \<noteq> Some [] \<and> doc_u d \<noteq> None \<and> doc_u d \<noteq> Some [])"

definition doc_title :: "doc \<Rightarrow> string" where
  "doc_title d = (case doc_t d of Some t \<Rightarrow> t | None \<Rightarrow> [])"

definition doc_breadcrumbs :: "doc \<Rightarrow> string list" where
  "doc_breadcrumbs d = (case doc_b d of Some b \<Rightarrow> b | None \<Rightarrow> [])"

text \<open>Markup: a tag (a \<open><\<close> with a \<open>>\<close> after it) or one of the six entities.\<close>

fun has_tag :: "string \<Rightarrow> bool" where
  "has_tag [] = False"
| "has_tag (c # cs) = ((c = CHR ''<'' \<and> after_gt cs \<noteq> None) \<or> has_tag cs)"

definition has_markup :: "string \<Rightarrow> bool" where
  "has_markup s =
     (has_tag s \<or> str_includes s ''&nbsp;'' \<or> str_includes s ''&amp;''
      \<or> str_includes s ''&lt;'' \<or> str_includes s ''&gt;''
      \<or> str_includes s ''&quot;'' \<or> str_includes s ''&#39;'')"

text \<open>Text whose white space is single space characters only: no other white-space
  character, no two in a row.\<close>

fun single_spaced :: "string \<Rightarrow> bool" where
  "single_spaced [] = True"
| "single_spaced [c] = (isSpace c \<longrightarrow> c = CHR '' '')"
| "single_spaced (c # d # cs) =
     ((isSpace c \<longrightarrow> c = CHR '' '' \<and> \<not> isSpace d) \<and> single_spaced (d # cs))"

text \<open>A help-center reply none of whose articles carries a negative score.\<close>

definition scores_nonneg :: "zendesk_reply \<Rightarrow> bool" where
  "scores_nonneg reply =
     (case reply of
        ZResults articles \<Rightarrow>
          list_all (\<lambda>a. case art_score a of None \<Rightarrow> True | Some s \<Rightarrow> 0 \<le> s) articles
      | _ \<Rightarrow> True)"

text \<open>A help-center reply all of whose articles have a string for a title.\<close>

definition titles_ok :: "zendesk_reply \<Rightarrow> bool" where
  "titles_ok reply =
     (case reply of
        ZResults articles \<Rightarrow> list_all (\<lambda>a. art_title a \<noteq> None) articles
      | _ \<Rightarrow> True)"

section \<open>Helper lemmas\<close>

subsection \<open>Substrings\<close>

lemma startsWith_iff: "startsWith s p = (\<exists>b. s = p @ b)"
  by (induction s p rule: startsWith.induct) auto

lemma str_includes_iff: "str_includes s p = (\<exists>a b. s = a @ p @ b)"
proof (induction s)
  case Nil
  then show ?case by auto
next
  case (Cons c cs)
  show ?case
  proof
    assume "str_includes (c # cs) p"
    then consider "startsWith (c # cs) p" | "str_includes cs p" by auto
    then show "\<exists>a b. c # cs = a @ p @ b"
    proof cases
      case 1
      then obtain b where "c # cs = p @ b" by (auto simp: startsWith_iff)
      then have "c # cs = [] @ p @ b" by simp
      then show ?thesis by blast
    next
      case 2
      with Cons.IH obtain a b where "cs = a @ p @ b" by auto
      then have "c # cs = (c # a) @ p @ b" by simp
      then show ?thesis by blast
    qed
  next
    assume "\<exists>a b. c # cs = a @ p @ b"
    then obtain a b where ab: "c # cs = a @ p @ b" by auto
    show "str_includes (c # cs) p"
    proof (cases a)
      case Nil
      with ab have "startsWith (c # cs) p" by (auto simp: startsWith_iff)
      then show ?thesis by simp
    next
      case front: (Cons x xs)
      with ab have "cs = xs @ p @ b" by simp
      with Cons.IH have "str_includes cs p" by blast
      then show ?thesis by simp
    qed
  qed
qed

subsection \<open>Splitting and joining\<close>

lemma split_space_nonempty: "split_space s \<noteq> []"
  by (induction s) (auto split: list.splits)

lemma split_space_no_space: "t \<in> set (split_space s) \<Longrightarrow> CHR '' '' \<notin> set t"
  by (induction s arbitrary: t) (auto split: list.splits if_splits)

lemma split_space_join: "join '' '' (split_space s) = s"
proof (induction s)
  case Nil
  then show ?case by simp
next
  case (Cons c cs)
  obtain t ts where ts: "split_space cs = t # ts"
    using split_space_nonempty [of cs] by (cases "split_space cs") auto
  with Cons show ?case by (cases ts) auto
qed

subsection \<open>Sorting\<close>

lemma array_sort_sort_key: "array_sort (\<lambda>a b. f b - f a) xs = sort_key (\<lambda>x. - f x) xs"
proof -
  have "insert_cmp (\<lambda>a b. f b - f a) x ys = insort_key (\<lambda>x. - f x) x ys" for x ys
    by (induction ys) auto
  then show ?thesis by (simp add: array_sort_def sort_key_def fun_eq_iff cong: foldr_cong)
qed

lemma array_sort_mset: "mset (array_sort (\<lambda>a b. f b - f a) xs) = mset xs"
  by (simp add: array_sort_sort_key)

lemma array_sort_sorted: "sorted_wrt (\<lambda>a b. f b \<le> f a) (array_sort (\<lambda>a b. f b - f a) xs)"
proof -
  have "sorted (map (\<lambda>x. - f x) (sort_key (\<lambda>x. - f x) xs))"
    by (rule sorted_sort_key)
  then show ?thesis by (simp add: array_sort_sort_key sorted_map)
qed

lemma array_sort_stable:
  "filter (\<lambda>x. f x = k) (array_sort (\<lambda>a b. f b - f a) xs) = filter (\<lambda>x. f x = k) xs"
  using sort_key_stable [of "\<lambda>x. - f x" "- k" xs] by (simp add: array_sort_sort_key)

subsection \<open>The ranker's score\<close>

lemma days_less:
  "((of_int d :: rat) / (1000 * 60 * 60 * 24) < 30) = (d < 30 * 86400000)"
  "((of_int d :: rat) / (1000 * 60 * 60 * 24) < 7) = (d < 7 * 86400000)"
  by (simp_all add: pos_divide_less_eq)

lemma rank_one_score:
  "title r = Some t \<Longrightarrow>
   rank_one now query r =
     Inr (r\<lparr>score := score r
        + 20 * of_nat (length (filter (\<lambda>w. str_includes (toLowerCase t) w)
             (filter (\<lambda>w. 2 < length w) (split_space (toLowerCase query)))))
        + (if str_includes (toLowerCase t) (toLowerCase query) then 30 else 0)
        + (if source r = ''zendesk'' then 10 else if source r = ''knowledge_base'' then 8
           else if source r = ''docs'' then 6 else 0)
        + (case last_updated r of None \<Rightarrow> 0
           | Some u \<Rightarrow> (if now - u < 30 * 86400000 then 5 else 0)
                     + (if now - u < 7 * 86400000 then 10 else 0))\<rparr>)"
  by (simp add: rank_one_def Let_def queryTerms_def sourcePriority_def days_less
      split: option.splits)

lemma rank_one_untitled: "title r = None \<Longrightarrow> rank_one now query r = Inl TypeError"
  by (simp add: rank_one_def)

lemma rank_one_returns: "(\<exists>r'. rank_one now query r = Inr r') = (title r \<noteq> None)"
  by (cases "title r") (simp_all add: rank_one_def)

subsection \<open>Mapping a callback that may throw\<close>

lemma map_try_sound: "map_try f xs = Inr ys \<Longrightarrow> map f xs = map Inr ys"
proof (induction xs arbitrary: ys)
  case Nil
  then show ?case by simp
next
  case (Cons x xs)
  from Cons.prems obtain y zs where y: "f x = Inr y" and zs: "map_try f xs = Inr zs"
    and ys: "ys = y # zs"
    by (auto split: sum.splits)
  from zs have "map f xs = map Inr zs" by (rule Cons.IH)
  with y ys show ?case by simp
qed

lemma map_try_complete: "map f xs = map Inr ys \<Longrightarrow> map_try f xs = Inr ys"
proof (induction xs arbitrary: ys)
  case Nil
  then show ?case by simp
next
  case (Cons x xs)
  from Cons.prems obtain y zs where ys: "ys = y # zs" and y: "f x = Inr y"
    and zs: "map f xs = map Inr zs"
    by (cases ys) simp_all
  from zs have "map_try f xs = Inr zs" by (rule Cons.IH)
  with y ys show ?case by simp
qed

lemma map_try_Inr: "(map_try f xs = Inr ys) = (map f xs = map Inr ys)"
  using map_try_sound map_try_complete by blast

lemma map_try_returns: "(\<exists>ys. map_try f xs = Inr ys) = (\<forall>x\<in>set xs. \<exists>y. f x = Inr y)"
proof (induction xs)
  case Nil
  then show ?case by simp
next
  case (Cons x xs)
  show ?case
  proof (cases "f x")
    case (Inl e)
    then show ?thesis by auto
  next
    case (Inr y)
    with Cons show ?thesis by (cases "map_try f xs") auto
  qed
qed

lemma rankResults_Inr:
  "(rankResults now rs q = Inr ranked)
   = (\<exists>rescored. map (rank_one now q) rs = map Inr rescored
        \<and> ranked = array_sort (\<lambda>a b. score b - score a) rescored)"
proof
  assume "rankResults now rs q = Inr ranked"
  then obtain zs where "map_try (rank_one now q) rs = Inr zs"
    and "ranked = array_sort (\<lambda>a b. score b - score a) zs"
    by (auto simp: rankResults_def split: sum.splits)
  then show "\<exists>rescored. map (rank_one now q) rs = map Inr rescored
        \<and> ranked = array_sort (\<lambda>a b. score b - score a) rescored"
    using map_try_sound by blast
next
  assume "\<exists>rescored. map (rank_one now q) rs = map Inr rescored
        \<and> ranked = array_sort (\<lambda>a b. score b - score a) rescored"
  then obtain zs where "map (rank_one now q) rs = map Inr zs"
    and r: "ranked = array_sort (\<lambda>a b. score b - score a) zs" by blast
  then have "map_try (rank_one now q) rs = Inr zs" by (simp add: map_try_complete)
  with r show "rankResults now rs q = Inr ranked" by (simp add: rankResults_def)
qed

lemma rankResults_returns:
  "(\<exists>ranked. rankResults now rs q = Inr ranked) = (\<forall>r\<in>set rs. title r \<noteq> None)"
proof -
  have "(\<exists>ranked. rankResults now rs q = Inr ranked)
        = (\<exists>rescored. map_try (rank_one now q) rs = Inr rescored)"
    by (auto simp: rankResults_def split: sum.splits)
  then show ?thesis by (simp add: map_try_returns rank_one_returns)
qed

section \<open>The ranker\<close>

text \<open>
  C2, as the code has it. When every result has a string for a title, the ranker
  returns a list that holds each input result with its score replaced by: the
  carried-in score, plus 20 for each token of the lowercase query that is longer than 2
  characters and occurs in the lowercase title, where the tokens are the pieces of the
  query between single space characters; plus 30 if the lowercase title contains the
  whole lowercase query; plus the source priority (zendesk 10, knowledge_base 8, docs
  6, any other source 0); plus 5 if the age of \<open>last_updated\<close> is under 30 days and 10
  more if it is under 7 days.
\<close>

theorem rank_score_formula:
  assumes "\<forall>r\<in>set results. title r \<noteq> None"
  shows "\<exists>ranked. rankResults now results query = Inr ranked
     \<and> mset ranked =
       mset (map (\<lambda>r. r\<lparr>score := score r
        + 20 * of_nat (length (filter (\<lambda>t. str_includes (toLowerCase (title_text r)) t)
             (filter (\<lambda>t. 2 < length t) (split_space (toLowerCase query)))))
        + (if str_includes (toLowerCase (title_text r)) (toLowerCase query) then 30 else 0)
        + (if source r = ''zendesk'' then 10 else if source r = ''knowledge_base'' then 8
           else if source r = ''docs'' then 6 else 0)
        + (case last_updated r of None \<Rightarrow> 0
           | Some t \<Rightarrow> (if now - t < 30 * 86400000 then 5 else 0)
                     + (if now - t < 7 * 86400000 then 10 else 0))\<rparr>) results)"
proof -
  define g where "g = (\<lambda>r. r\<lparr>score := score r
        + 20 * of_nat (length (filter (\<lambda>t. str_includes (toLowerCase (title_text r)) t)
             (filter (\<lambda>t. 2 < length t) (split_space (toLowerCase query)))))
        + (if str_includes (toLowerCase (title_text r)) (toLowerCase query) then 30 else 0)
        + (if source r = ''zendesk'' then 10 else if source r = ''knowledge_base'' then 8
           else if source r = ''docs'' then 6 else 0)
        + (case last_updated r of None \<Rightarrow> 0
           | Some t \<Rightarrow> (if now - t < 30 * 86400000 then 5 else 0)
                     + (if now - t < 7 * 86400000 then 10 else 0))\<rparr>)"
  have one: "rank_one now query r = Inr (g r)" if "r \<in> set results" for r
  proof -
    from that assms obtain t where t: "title r = Some t" by auto
    then have "title_text r = t" by (simp add: title_text_def)
    with rank_one_score [OF t, of now query] show ?thesis by (simp add: g_def)
  qed
  then have "map (rank_one now query) results = map Inr (map g results)" by simp
  then have "rankResults now results query
      = Inr (array_sort (\<lambda>a b. score b - score a) (map g results))"
    by (simp only: rankResults_Inr) blast
  moreover have "mset (array_sort (\<lambda>a b. score b - score a) (map g results))
      = mset (map g results)"
    by (rule array_sort_mset)
  ultimately show ?thesis unfolding g_def by blast
qed

theorem rank_score_formula_witness:
  "list_all (\<lambda>r. title r \<noteq> None)
     [\<lparr>res_id = ''zendesk_1'', title = Some ''Reset a password'', url = ''u'', snippet = ''s'',
       content = None, score = 1, source = ''zendesk'', category = None,
       res_section = None, last_updated = Some 0\<rparr>]
   \<and> rankResults 86400000
     [\<lparr>res_id = ''zendesk_1'', title = Some ''Reset a password'', url = ''u'', snippet = ''s'',
       content = None, score = 1, source = ''zendesk'', category = None,
       res_section = None, last_updated = Some 0\<rparr>] ''password reset''
     = Inr [\<lparr>res_id = ''zendesk_1'', title = Some ''Reset a password'', url = ''u'',
             snippet = ''s'', content = None, score = 1 + 40 + 0 + 10 + 15,
             source = ''zendesk'', category = None, res_section = None,
             last_updated = Some 0\<rparr>]"
proof -
  let ?r = "\<lparr>res_id = ''zendesk_1'', title = Some ''Reset a password'', url = ''u'', snippet = ''s'',
       content = None, score = 1, source = ''zendesk'', category = None,
       res_section = None, last_updated = Some 0\<rparr>"
  have h: "\<forall>r\<in>set [?r]. title r \<noteq> None" by simp
  have e: "rankResults 86400000 [?r] ''password reset'' = Inr [?r\<lparr>score := 66\<rparr>]"
    by code_simp
  from rank_score_formula [OF h, of 86400000 "''password reset''"] e show ?thesis by simp
qed

text \<open>
  C2, as the claim states it, fails for a query whose tokens are separated by a tab:
  the code sees the one token \<open>foo<TAB>bar\<close>, which the title \<open>foo\<close> does not contain,
  and gives 0 + 10; white-space tokens would give 0 + 20 + 10.
\<close>

theorem rank_tab_query_counterexample:
  "rankResults 0
     [\<lparr>res_id = ''zendesk_1'', title = Some ''foo'', url = ''u'', snippet = ''s'',
       content = None, score = 0, source = ''zendesk'', category = None,
       res_section = None, last_updated = None\<rparr>]
     (''foo'' @ [CHR 0x09] @ ''bar'')
   = Inr [\<lparr>res_id = ''zendesk_1'', title = Some ''foo'', url = ''u'', snippet = ''s'',
           content = None, score = 10, source = ''zendesk'', category = None,
           res_section = None, last_updated = None\<rparr>]
   \<and> spec_rank_score 0 (''foo'' @ [CHR 0x09] @ ''bar'')
       \<lparr>res_id = ''zendesk_1'', title = Some ''foo'', url = ''u'', snippet = ''s'',
         content = None, score = 0, source = ''zendesk'', category = None,
         res_section = None, last_updated = None\<rparr> = 30"
  by code_simp

text \<open>
  C3. When every result has a string for a title, the ranker returns a list: it is a
  permutation of the rescored input results, its scores do not increase from left to
  right, and the results of any one score stand in the order in which the input had
  them.
\<close>

theorem rank_sorted_stable:
  assumes "\<forall>r\<in>set results. title r \<noteq> None"
  shows "\<exists>rescored ranked.
       map (rank_one now query) results = map Inr rescored
     \<and> rankResults now results query = Inr ranked
     \<and> mset ranked = mset rescored
     \<and> sorted_wrt (\<lambda>a b. score b \<le> score a) ranked
     \<and> (\<forall>s. filter (\<lambda>r. score r = s) ranked = filter (\<lambda>r. score r = s) rescored)"
proof -
  from assms obtain ranked where "rankResults now results query = Inr ranked"
    using rankResults_returns [of now results query] by blast
  then obtain rescored where r: "map (rank_one now query) results = map Inr rescored"
    and s: "ranked = array_sort (\<lambda>a b. score b - score a) rescored"
    and t: "rankResults now results query = Inr ranked"
    by (auto simp: rankResults_Inr)
  have "mset ranked = mset rescored" unfolding s by (rule array_sort_mset)
  moreover have "sorted_wrt (\<lambda>a b. score b \<le> score a) ranked"
    unfolding s by (rule array_sort_sorted)
  moreover have "\<forall>s. filter (\<lambda>r. score r = s) ranked = filter (\<lambda>r. score r = s) rescored"
    unfolding s by (simp add: array_sort_stable)
  ultimately show ?thesis using r t by blast
qed

theorem rank_sorted_stable_witness:
  "list_all (\<lambda>r. title r \<noteq> None)
     [\<lparr>res_id = ''zendesk_1'', title = Some ''a'', url = ''u'', snippet = ''s'',
       content = None, score = 0, source = ''zendesk'', category = None,
       res_section = None, last_updated = None\<rparr>,
      \<lparr>res_id = ''kb_2'', title = Some ''b'', url = ''u'', snippet = ''s'',
       content = None, score = 2, source = ''knowledge_base'', category = None,
       res_section = None, last_updated = None\<rparr>,
      \<lparr>res_id = ''docs_3'', title = Some ''c'', url = ''u'', snippet = ''s'',
       content = None, score = 9, source = ''docs'', category = None,
       res_section = None, last_updated = None\<rparr>]
   \<and> map_sum id (map (\<lambda>r. (res_id r, score r))) (rankResults 0
     [\<lparr>res_id = ''zendesk_1'', title = Some ''a'', url = ''u'', snippet = ''s'',
       content = None, score = 0, source = ''zendesk'', category = None,
       res_section = None, last_updated = None\<rparr>,
      \<lparr>res_id = ''kb_2'', title = Some ''b'', url = ''u'', snippet = ''s'',
       content = None, score = 2, source = ''knowledge_base'', category = None,
       res_section = None, last_updated = None\<rparr>,
      \<lparr>res_id = ''docs_3'', title = Some ''c'', url = ''u'', snippet = ''s'',
       content = None, score = 9, source = ''docs'', category = None,
       res_section = None, last_updated = None\<rparr>] ''query'')
     = Inr [(''docs_3'', 15), (''zendesk_1'', 10), (''kb_2'', 10)]"
proof -
  let ?rs = "[\<lparr>res_id = ''zendesk_1'', title = Some ''a'', url = ''u'', snippet = ''s'',
       content = None, score = 0, source = ''zendesk'', category = None,
       res_section = None, last_updated = None\<rparr>,
      \<lparr>res_id = ''kb_2'', title = Some ''b'', url = ''u'', snippet = ''s'',
       content = None, score = 2, source = ''knowledge_base'', category = None,
       res_section = None, last_updated = None\<rparr>,
      \<lparr>res_id = ''docs_3'', title = Some ''c'', url = ''u'', snippet = ''s'',
       content = None, score = 9, source = ''docs'', category = None,
       res_section = None, last_updated = None\<rparr>]"
  have h: "\<forall>r\<in>set ?rs. title r \<noteq> None" by simp
  have e: "map_sum id (map (\<lambda>r. (res_id r, score r))) (rankResults 0 ?rs ''query'')
     = Inr [(''docs_3'', 15), (''zendesk_1'', 10), (''kb_2'', 10)]"
    by code_simp
  from rank_sorted_stable [OF h, of 0 "''query''"] e show ?thesis by simp
qed

section \<open>The endpoint's input check\<close>

lemma valid_query: "2 \<le> length (trim q) \<Longrightarrow> \<not> invalid_query (JStr q)"
  by (auto simp: invalid_query_def trim_def)

text \<open>
  A request whose query is missing, is not a string, or is a string of trimmed length
  under 2 is answered with 400, provided its \<open>sources\<close> field is not \<^verbatim>\<open>null\<close>: the body
  carries \<open>success: false\<close>, the fixed error text and the query itself when it is
  truthy, the empty string otherwise. No adapter is called.
\<close>

lemma short_query_rejected:
  assumes "case req_query req of JStr s \<Rightarrow> length (trim s) < 2 | _ \<Rightarrow> True"
    and "req_sources req \<noteq> Some SrcNull"
  shows "unified_search ad now req =
           (Bad_Request \<lparr>err_success = False,
                         err_error = ''Query must be at least 2 characters long'',
                         err_query = (if truthy (req_query req) then req_query req else JStr [])\<rparr>,
            [])"
proof -
  from assms(1) have "invalid_query (req_query req)"
    by (cases "req_query req") (auto simp: invalid_query_def)
  moreover from assms(2) have "sources_of req \<noteq> SrcNull"
    by (cases "req_sources req") (simp_all add: sources_of_def)
  ultimately show ?thesis by (simp add: unified_search_def Let_def)
qed

text \<open>
  C1. The claim fails in the code for a request whose \<open>sources\<close> field is \<^verbatim>\<open>null\<close>: the
  log statement reads \<^verbatim>\<open>sources.length\<close> before the input check, the \<^verbatim>\<open>TypeError\<close>
  goes to the \<^verbatim>\<open>catch\<close> of the handler, and the short query \<open>x\<close> is answered with
  500 and the service error text, not with 400.
\<close>

theorem null_sources_short_query:
  "unified_search ad now \<lparr>req_query = JStr ''x'', req_limit = None, req_sources = Some SrcNull\<rparr>
   = (Server_Error \<lparr>fail_success = False, fail_error = ''Unified search service error''\<rparr>, [])"
  by (simp add: unified_search_def sources_of_def service_error_def)

section \<open>The fan-out\<close>

lemma combine_foldl:
  "foldl (\<lambda>allResults result.
              (case result of
                 Fulfilled v \<Rightarrow> if 0 < length v then allResults @ v else allResults
               | Rejected \<Rightarrow> allResults)) acc rs = acc @ concat (map settled_value rs)"
  by (induction rs arbitrary: acc) (auto split: settled.splits)

lemma combine_concat: "combine rs = concat (map settled_value rs)"
  by (simp add: combine_def combine_foldl)

lemma dispatch_array:
  "dispatch q limit (SrcArray sources) =
     Inr ((if ''zendesk'' \<in> set sources
           then [(''zendesk'', q, \<lceil>(of_int limit :: rat) * (4 / 10)\<rceil>)] else [])
          @ (if ''docs'' \<in> set sources
             then [(''docs'', q, \<lceil>(of_int limit :: rat) * (3 / 10)\<rceil>)] else [])
          @ (if ''knowledge_base'' \<in> set sources
             then [(''knowledge_base'', q, \<lceil>(of_int limit :: rat) * (3 / 10)\<rceil>)] else []))"
  by (simp add: dispatch_def)

lemma combine_calls:
  "combine (map (invoke ad)
     ((if ''zendesk'' \<in> set sources
           then [(''zendesk'', q, \<lceil>(of_int limit :: rat) * (4 / 10)\<rceil>)] else [])
          @ (if ''docs'' \<in> set sources
             then [(''docs'', q, \<lceil>(of_int limit :: rat) * (3 / 10)\<rceil>)] else [])
          @ (if ''knowledge_base'' \<in> set sources
             then [(''knowledge_base'', q, \<lceil>(of_int limit :: rat) * (3 / 10)\<rceil>)] else []))) =
     (if ''zendesk'' \<in> set sources
      then settled_value (zendesk_adapter ad q \<lceil>(of_int limit :: rat) * (4 / 10)\<rceil>)
      else [])
     @ (if ''docs'' \<in> set sources
        then settled_value (docs_adapter ad q \<lceil>(of_int limit :: rat) * (3 / 10)\<rceil>)
        else [])
     @ (if ''knowledge_base'' \<in> set sources
        then settled_value (kb_adapter ad q \<lceil>(of_int limit :: rat) * (3 / 10)\<rceil>)
        else [])"
  by (simp add: combine_concat invoke_def)

lemma enabled_calls:
  "map fst
     ((if ''zendesk'' \<in> set sources
           then [(''zendesk'', q, \<lceil>(of_int limit :: rat) * (4 / 10)\<rceil>)] else [])
          @ (if ''docs'' \<in> set sources
             then [(''docs'', q, \<lceil>(of_int limit :: rat) * (3 / 10)\<rceil>)] else [])
          @ (if ''knowledge_base'' \<in> set sources
             then [(''knowledge_base'', q, \<lceil>(of_int limit :: rat) * (3 / 10)\<rceil>)] else []))
     = filter (\<lambda>s. s \<in> set sources) [''zendesk'', ''docs'', ''knowledge_base'']"
  by simp

lemma unified_search_valid:
  assumes "req_query req = JStr q" and "2 \<le> length (trim q)"
    and "sources_of req = SrcArray sources"
  shows "unified_search ad now req =
     (let calls =
            (if ''zendesk'' \<in> set sources
             then [(''zendesk'', q, \<lceil>(of_int (limit_of req) :: rat) * (4 / 10)\<rceil>)] else [])
            @ (if ''docs'' \<in> set sources
               then [(''docs'', q, \<lceil>(of_int (limit_of req) :: rat) * (3 / 10)\<rceil>)] else [])
            @ (if ''knowledge_base'' \<in> set sources
               then [(''knowledge_base'', q, \<lceil>(of_int (limit_of req) :: rat) * (3 / 10)\<rceil>)]
               else []);
          allResults = combine (map (invoke ad) calls)
      in ((case rankResults now allResults q of
             Inl e \<Rightarrow> service_error
           | Inr ranked \<Rightarrow>
               Success \<lparr>resp_success = True,
                        resp_results = slice0 ranked (limit_of req),
                        resp_total = length allResults,
                        resp_returned = length (slice0 ranked (limit_of req)),
                        resp_query = trim q,
                        resp_sources = map fst calls,
                        resp_api_version = ''unified_v1''\<rparr>),
          calls))"
proof -
  from assms(1,2) have "\<not> invalid_query (req_query req)"
    by (simp add: valid_query)
  with assms(1,3) show ?thesis
    by (simp add: unified_search_def Let_def dispatch_array split: sum.splits)
qed

text \<open>
  C4. For a valid request the handler calls the adapter of each enabled source, in the
  order zendesk, docs, knowledge_base, with the query and the rounded-up share of the
  limit (four tenths, three tenths, three tenths). Every call is made and awaited,
  whatever the others do; the merged list is the concatenation, in that order, of what
  the fulfilled calls returned, a rejected call contributing nothing. The response is
  built from the ranking of that merged list.
\<close>

theorem coordinator_dispatch_merge:
  assumes "req_query req = JStr q" and "2 \<le> length (trim q)"
    and "sources_of req = SrcArray sources"
  shows "let limit = limit_of req;
             Z = (if ''zendesk'' \<in> set sources
                  then settled_value (zendesk_adapter ad q \<lceil>(of_int limit :: rat) * (4 / 10)\<rceil>)
                  else []);
             D = (if ''docs'' \<in> set sources
                  then settled_value (docs_adapter ad q \<lceil>(of_int limit :: rat) * (3 / 10)\<rceil>)
                  else []);
             K = (if ''knowledge_base'' \<in> set sources
                  then settled_value (kb_adapter ad q \<lceil>(of_int limit :: rat) * (3 / 10)\<rceil>)
                  else [])
         in unified_search ad now req =
              ((case rankResults now (Z @ D @ K) q of
                  Inl e \<Rightarrow> service_error
                | Inr ranked \<Rightarrow>
                    Success \<lparr>resp_success = True,
                             resp_results = slice0 ranked limit,
                             resp_total = length (Z @ D @ K),
                             resp_returned = length (slice0 ranked limit),
                             resp_query = trim q,
                             resp_sources = filter (\<lambda>s. s \<in> set sources)
                                              [''zendesk'', ''docs'', ''knowledge_base''],
                             resp_api_version = ''unified_v1''\<rparr>),
               (if ''zendesk'' \<in> set sources
                then [(''zendesk'', q, \<lceil>(of_int limit :: rat) * (4 / 10)\<rceil>)] else [])
               @ (if ''docs'' \<in> set sources
                  then [(''docs'', q, \<lceil>(of_int limit :: rat) * (3 / 10)\<rceil>)] else [])
               @ (if ''knowledge_base'' \<in> set sources
                  then [(''knowledge_base'', q, \<lceil>(of_int limit :: rat) * (3 / 10)\<rceil>)] else []))"
  unfolding Let_def unified_search_valid [OF assms] combine_calls enabled_calls
  by (rule refl)


theorem coordinator_dispatch_merge_witness:
  "unified_search
     \<lparr>zendesk_adapter = (\<lambda>q l. if l = 2 then Fulfilled
         [\<lparr>res_id = ''zendesk_1'', title = Some ''Reset a password'', url = ''u'',
           snippet = ''s'', content = None, score = 1, source = ''zendesk'', category = None,
           res_section = None, last_updated = None\<rparr>] else Rejected),
       docs_adapter = (\<lambda>q l. Rejected), kb_adapter = (\<lambda>q l. Rejected)\<rparr> 0
     \<lparr>req_query = JStr ''password reset'', req_limit = Some 5,
       req_sources = Some (SrcArray [''zendesk''])\<rparr>
   = (Success \<lparr>resp_success = True,
               resp_results =
                 [\<lparr>res_id = ''zendesk_1'', title = Some ''Reset a password'', url = ''u'',
                   snippet = ''s'', content = None, score = 51, source = ''zendesk'',
                   category = None, res_section = None, last_updated = None\<rparr>],
               resp_total = 1, resp_returned = 1, resp_query = ''password reset'',
               resp_sources = [''zendesk''], resp_api_version = ''unified_v1''\<rparr>,
      [(''zendesk'', ''password reset'', 2)])"
proof -
  let ?req = "\<lparr>req_query = JStr ''password reset'', req_limit = Some 5,
       req_sources = Some (SrcArray [''zendesk''])\<rparr>"
  let ?ad = "\<lparr>zendesk_adapter = (\<lambda>q l. if l = 2 then Fulfilled
         [\<lparr>res_id = ''zendesk_1'', title = Some ''Reset a password'', url = ''u'',
           snippet = ''s'', content = None, score = 1, source = ''zendesk'', category = None,
           res_section = None, last_updated = None\<rparr>] else Rejected),
       docs_adapter = (\<lambda>q l. Rejected), kb_adapter = (\<lambda>q l. Rejected)\<rparr>"
  have a: "req_query ?req = JStr ''password reset''" by simp
  have b: "2 \<le> length (trim ''password reset'')" by code_simp
  have c: "sources_of ?req = SrcArray [''zendesk'']" by (simp add: sources_of_def)
  have t: "trim ''password reset'' = ''password reset''" by code_simp
  have r: "rankResults 0
         [\<lparr>res_id = ''zendesk_1'', title = Some ''Reset a password'', url = ''u'',
           snippet = ''s'', content = None, score = 1, source = ''zendesk'', category = None,
           res_section = None, last_updated = None\<rparr>] ''password reset''
       = Inr [\<lparr>res_id = ''zendesk_1'', title = Some ''Reset a password'', url = ''u'',
                   snippet = ''s'', content = None, score = 51, source = ''zendesk'',
                   category = None, res_section = None, last_updated = None\<rparr>]"
    by code_simp
  show ?thesis
    using coordinator_dispatch_merge [OF a b c, of ?ad 0]
    by (simp add: t r Let_def limit_of_def slice0_def)
qed

lemma slice0_all: "int (length xs) \<le> n \<Longrightarrow> slice0 xs n = xs"
  by (simp add: slice0_def)

lemma rankResults_length: "rankResults now rs q = Inr ranked \<Longrightarrow> length ranked = length rs"
proof -
  assume "rankResults now rs q = Inr ranked"
  then obtain rescored where r: "map (rank_one now q) rs = map Inr rescored"
    and s: "ranked = array_sort (\<lambda>a b. score b - score a) rescored"
    by (auto simp: rankResults_Inr)
  from r have "length rs = length rescored" by (rule map_eq_imp_length_eq)
  moreover have "size (mset ranked) = size (mset rescored)"
    unfolding s by (simp only: array_sort_mset)
  ultimately show ?thesis by simp
qed

lemma rankResults_mset:
  "rankResults now rs q = Inr ranked \<Longrightarrow> mset (map Inr ranked) = mset (map (rank_one now q) rs)"
proof -
  assume "rankResults now rs q = Inr ranked"
  then obtain rescored where r: "map (rank_one now q) rs = map Inr rescored"
    and s: "ranked = array_sort (\<lambda>a b. score b - score a) rescored"
    by (auto simp: rankResults_Inr)
  have "mset ranked = mset rescored" unfolding s by (rule array_sort_mset)
  then have "mset (map Inr ranked) = mset (map Inr rescored)" by (simp only: mset_map)
  with r show ?thesis by simp
qed

lemma searchZendesk_failure:
  "help_center_search up (trim q) l = ZFailed \<or> help_center_search up (trim q) l = ZNoResults
   \<Longrightarrow> searchZendesk up q l = []"
  by (auto simp: searchZendesk_def searchZendesk_try_def)

lemma searchKnowledgeBase_failure:
  "help_center_search up (kb_query q) l = ZFailed \<or> help_center_search up (kb_query q) l = ZNoResults
   \<Longrightarrow> searchKnowledgeBase up q l = []"
  by (auto simp: searchKnowledgeBase_def searchKnowledgeBase_try_def)

lemma searchDocumentation_failure:
  "search_index up \<in> {DFailed, DNotArray, DNoDocuments, DBadDocuments}
   \<Longrightarrow> searchDocumentation up t q l = []"
  by (auto simp: searchDocumentation_def searchDocumentation_try_def)

lemma searchZendesk_caught: "searchZendesk_try up q l = Inl e \<Longrightarrow> searchZendesk up q l = []"
  by (simp add: searchZendesk_def)

lemma searchKnowledgeBase_caught:
  "searchKnowledgeBase_try up q l = Inl e \<Longrightarrow> searchKnowledgeBase up q l = []"
  by (simp add: searchKnowledgeBase_def)

lemma searchDocumentation_caught:
  "searchDocumentation_try up t q l = Inl e \<Longrightarrow> searchDocumentation up t q l = []"
  by (simp add: searchDocumentation_def)

lemma searchZendesk_titled:
  assumes "titles_ok (help_center_search up (trim q) l)" and "r \<in> set (searchZendesk up q l)"
  shows "title r \<noteq> None"
  using assms
  by (auto simp: titles_ok_def searchZendesk_def searchZendesk_try_def zendesk_result_def
      list_all_iff split: zendesk_reply.splits)

lemma searchKnowledgeBase_titled:
  assumes "titles_ok (help_center_search up (kb_query q) l)"
    and "r \<in> set (searchKnowledgeBase up q l)"
  shows "title r \<noteq> None"
  using assms
  by (auto simp: titles_ok_def searchKnowledgeBase_def searchKnowledgeBase_try_def
      kb_result_def list_all_iff split: zendesk_reply.splits)

lemma set_slice0: "set (slice0 xs n) \<subseteq> set xs"
  by (auto simp: slice0_def dest: in_set_takeD)

lemma set_array_sort: "set (array_sort (\<lambda>a b. f b - f a) xs) = set xs"
  by (simp add: array_sort_sort_key)

lemma doc_entry_fields:
  assumes "doc_entry t ql qw d = Some r"
  shows "last_updated r = Some t" and "source r = ''docs''" and "0 < score r"
    and "title r \<noteq> None"
  using assms
  by (auto simp: doc_entry_def Let_def split: option.splits if_splits)

lemma searchDocumentation_entry:
  assumes "r \<in> set (searchDocumentation up t q l)"
  shows "\<exists>ql qw d. doc_entry t ql qw d = Some r"
proof (cases "search_index up")
  case (DIndex docs)
  let ?ql = "trim (toLowerCase q)"
  let ?qw = "filter (\<lambda>word. 2 < length word) (split_ws ?ql)"
  from assms DIndex have "r \<in> set (slice0 (array_sort (\<lambda>a b. score b - score a)
      (List.map_filter (doc_entry t ?ql ?qw) docs)) l)"
    by (simp add: searchDocumentation_def searchDocumentation_try_def Let_def)
  then have "r \<in> set (List.map_filter (doc_entry t ?ql ?qw) docs)"
    using set_slice0 set_array_sort by fastforce
  then obtain d where "doc_entry t ?ql ?qw d = Some r"
    by (auto simp: map_filter_def)
  then show ?thesis by blast
qed (use assms in \<open>auto simp: searchDocumentation_def searchDocumentation_try_def\<close>)

lemma searchDocumentation_titled:
  assumes "r \<in> set (searchDocumentation up t q l)"
  shows "title r \<noteq> None"
  using searchDocumentation_entry [OF assms] doc_entry_fields(4) by blast


text \<open>
  C5, as the code has it. Each adapter returns the empty list whenever something
  inside it throws: the request fails (time-out, error status), or the response body
  lacks the expected array or index. For a valid request, and help-center replies whose
  articles all have a string for a title, the response is then a success: its ranked
  list is the ranking of exactly what the three adapters returned, cut to the limit as
  for any request (so all of it is returned when it fits the limit); a failed adapter
  adds nothing, and \<open>total\<close> is the number of results that the adapters returned.
\<close>

theorem adapter_failure_isolated:
  assumes "req_query req = JStr q" and "2 \<le> length (trim q)"
    and "sources_of req = SrcArray sources"
    and "titles_ok (help_center_search up (trim q) \<lceil>(of_int (limit_of req) :: rat) * (4 / 10)\<rceil>)"
    and "titles_ok (help_center_search up (kb_query q) \<lceil>(of_int (limit_of req) :: rat) * (3 / 10)\<rceil>)"
  shows "let limit = limit_of req;
             Z = (if ''zendesk'' \<in> set sources
                  then searchZendesk up q \<lceil>(of_int limit :: rat) * (4 / 10)\<rceil> else []);
             D = (if ''docs'' \<in> set sources
                  then searchDocumentation up t q \<lceil>(of_int limit :: rat) * (3 / 10)\<rceil> else []);
             K = (if ''knowledge_base'' \<in> set sources
                  then searchKnowledgeBase up q \<lceil>(of_int limit :: rat) * (3 / 10)\<rceil> else [])
         in (searchZendesk_try up q' l = Inl e \<longrightarrow> searchZendesk up q' l = [])
          \<and> (searchKnowledgeBase_try up q' l = Inl e \<longrightarrow> searchKnowledgeBase up q' l = [])
          \<and> (searchDocumentation_try up t q' l = Inl e \<longrightarrow> searchDocumentation up t q' l = [])
          \<and> (help_center_search up (trim q') l = ZFailed
               \<or> help_center_search up (trim q') l = ZNoResults
             \<longrightarrow> searchZendesk up q' l = [])
          \<and> (help_center_search up (kb_query q') l = ZFailed
               \<or> help_center_search up (kb_query q') l = ZNoResults
             \<longrightarrow> searchKnowledgeBase up q' l = [])
          \<and> (search_index up \<in> {DFailed, DNotArray, DNoDocuments, DBadDocuments}
             \<longrightarrow> searchDocumentation up t q' l = [])
          \<and> (\<exists>ranked.
                rankResults now (Z @ D @ K) q = Inr ranked
              \<and> mset (map Inr ranked) = mset (map (rank_one now q) (Z @ D @ K))
              \<and> fst (unified_search (program_adapters up t) now req) =
                  Success \<lparr>resp_success = True,
                           resp_results = slice0 ranked limit,
                           resp_total = length Z + length D + length K,
                           resp_returned = length (slice0 ranked limit),
                           resp_query = trim q,
                           resp_sources = filter (\<lambda>s. s \<in> set sources)
                                            [''zendesk'', ''docs'', ''knowledge_base''],
                           resp_api_version = ''unified_v1''\<rparr>
              \<and> (int (length Z + length D + length K) \<le> limit \<longrightarrow> slice0 ranked limit = ranked))"
proof -
  define limit where "limit = limit_of req"
  define Z where "Z = (if ''zendesk'' \<in> set sources
                  then searchZendesk up q \<lceil>(of_int limit :: rat) * (4 / 10)\<rceil> else [])"
  define D where "D = (if ''docs'' \<in> set sources
                  then searchDocumentation up t q \<lceil>(of_int limit :: rat) * (3 / 10)\<rceil> else [])"
  define K where "K = (if ''knowledge_base'' \<in> set sources
                  then searchKnowledgeBase up q \<lceil>(of_int limit :: rat) * (3 / 10)\<rceil> else [])"
  have "title r \<noteq> None" if "r \<in> set (Z @ D @ K)" for r
    using that assms(4,5) searchZendesk_titled searchKnowledgeBase_titled
      searchDocumentation_titled
    by (auto simp: Z_def D_def K_def limit_def split: if_splits)
  then obtain ranked where ranked: "rankResults now (Z @ D @ K) q = Inr ranked"
    using rankResults_returns [of now "Z @ D @ K" q] by blast
  have m: "mset (map Inr ranked) = mset (map (rank_one now q) (Z @ D @ K))"
    using ranked by (rule rankResults_mset)
  have "length ranked = length (Z @ D @ K)"
    using ranked by (rule rankResults_length)
  then have fit: "slice0 ranked limit = ranked" if "int (length Z + length D + length K) \<le> limit"
    using that by (simp add: slice0_all)
  have merged: "(if ''zendesk'' \<in> set sources
      then settled_value (zendesk_adapter (program_adapters up t) q
             \<lceil>(of_int limit :: rat) * (4 / 10)\<rceil>) else [])
     @ (if ''docs'' \<in> set sources
        then settled_value (docs_adapter (program_adapters up t) q
               \<lceil>(of_int limit :: rat) * (3 / 10)\<rceil>) else [])
     @ (if ''knowledge_base'' \<in> set sources
        then settled_value (kb_adapter (program_adapters up t) q
               \<lceil>(of_int limit :: rat) * (3 / 10)\<rceil>) else []) = Z @ D @ K"
    by (simp add: program_adapters_def Z_def D_def K_def)
  have resp: "fst (unified_search (program_adapters up t) now req) =
      Success \<lparr>resp_success = True,
               resp_results = slice0 ranked limit,
               resp_total = length Z + length D + length K,
               resp_returned = length (slice0 ranked limit),
               resp_query = trim q,
               resp_sources = filter (\<lambda>s. s \<in> set sources)
                                [''zendesk'', ''docs'', ''knowledge_base''],
               resp_api_version = ''unified_v1''\<rparr>"
    unfolding unified_search_valid [OF assms(1-3)] Let_def combine_calls enabled_calls
      limit_def [symmetric] merged
    by (simp add: ranked)
  have fail: "(searchZendesk_try up q' l = Inl e \<longrightarrow> searchZendesk up q' l = [])
          \<and> (searchKnowledgeBase_try up q' l = Inl e \<longrightarrow> searchKnowledgeBase up q' l = [])
          \<and> (searchDocumentation_try up t q' l = Inl e \<longrightarrow> searchDocumentation up t q' l = [])
          \<and> (help_center_search up (trim q') l = ZFailed
               \<or> help_center_search up (trim q') l = ZNoResults
             \<longrightarrow> searchZendesk up q' l = [])
          \<and> (help_center_search up (kb_query q') l = ZFailed
               \<or> help_center_search up (kb_query q') l = ZNoResults
             \<longrightarrow> searchKnowledgeBase up q' l = [])
          \<and> (search_index up \<in> {DFailed, DNotArray, DNoDocuments, DBadDocuments}
             \<longrightarrow> searchDocumentation up t q' l = [])"
    using searchZendesk_failure [of up q' l] searchKnowledgeBase_failure [of up q' l]
      searchDocumentation_failure [of up t q' l] searchZendesk_caught [of up q' l e]
      searchKnowledgeBase_caught [of up q' l e] searchDocumentation_caught [of up t q' l e]
    by blast
  from ranked m resp fit have "\<exists>ranked.
                rankResults now (Z @ D @ K) q = Inr ranked
              \<and> mset (map Inr ranked) = mset (map (rank_one now q) (Z @ D @ K))
              \<and> fst (unified_search (program_adapters up t) now req) =
                  Success \<lparr>resp_success = True,
                           resp_results = slice0 ranked limit,
                           resp_total = length Z + length D + length K,
                           resp_returned = length (slice0 ranked limit),
                           resp_query = trim q,
                           resp_sources = filter (\<lambda>s. s \<in> set sources)
                                            [''zendesk'', ''docs'', ''knowledge_base''],
                           resp_api_version = ''unified_v1''\<rparr>
              \<and> (int (length Z + length D + length K) \<le> limit \<longrightarrow> slice0 ranked limit = ranked)"
    by blast
  with fail show ?thesis
    unfolding Let_def limit_def Z_def D_def K_def by simp
qed


theorem adapter_failure_isolated_witness:
  "searchZendesk
     \<lparr>help_center_search = (\<lambda>q l. ZFailed),
      search_index = DIndex [\<lparr>doc_t = Some ''Password Reset Guide'', doc_u = Some ''/reset'',
                              doc_b = Some [''Account''], doc_i = ''7''\<rparr>]\<rparr>
     ''password reset'' 4 = []
   \<and> fst (unified_search
       (program_adapters
          \<lparr>help_center_search = (\<lambda>q l. ZFailed),
           search_index = DIndex [\<lparr>doc_t = Some ''Password Reset Guide'', doc_u = Some ''/reset'',
                                   doc_b = Some [''Account''], doc_i = ''7''\<rparr>]\<rparr> 5)
       10 \<lparr>req_query = JStr ''password reset'', req_limit = None, req_sources = None\<rparr>)
     = Success \<lparr>resp_success = True,
         resp_results =
           [\<lparr>res_id = ''docs_7'', title = Some ''Password Reset Guide'',
             url = ''https://help.getmaintainx.com/reset'',
             snippet = ''Account - Password Reset Guide'',
             content = Some ''Password Reset Guide - Account'',
             score = 217, source = ''docs'', category = Some ''Account'',
             res_section = None, last_updated = Some 5\<rparr>],
         resp_total = 1, resp_returned = 1, resp_query = ''password reset'',
         resp_sources = [''zendesk'', ''docs'', ''knowledge_base''],
         resp_api_version = ''unified_v1''\<rparr>"
proof -
  let ?up = "\<lparr>help_center_search = (\<lambda>q l. ZFailed),
           search_index = DIndex [\<lparr>doc_t = Some ''Password Reset Guide'', doc_u = Some ''/reset'',
                                   doc_b = Some [''Account''], doc_i = ''7''\<rparr>]\<rparr>"
  let ?req = "\<lparr>req_query = JStr ''password reset'', req_limit = None, req_sources = None\<rparr>"
  let ?d = "\<lparr>res_id = ''docs_7'', title = Some ''Password Reset Guide'',
             url = ''https://help.getmaintainx.com/reset'',
             snippet = ''Account - Password Reset Guide'',
             content = Some ''Password Reset Guide - Account'',
             score = 126, source = ''docs'', category = Some ''Account'',
             res_section = None, last_updated = Some 5\<rparr>"
  have a: "req_query ?req = JStr ''password reset''" by simp
  have b: "2 \<le> length (trim ''password reset'')" by code_simp
  have c: "sources_of ?req = SrcArray [''zendesk'', ''docs'', ''knowledge_base'']"
    by (simp add: sources_of_def)
  have o: "titles_ok (help_center_search ?up x y)" for x y
    by (simp add: titles_ok_def)
  have t: "trim ''password reset'' = ''password reset''" by code_simp
  have z: "searchZendesk ?up x y = []" for x y
    by (simp add: searchZendesk_def searchZendesk_try_def)
  have k: "searchKnowledgeBase ?up x y = []" for x y
    by (simp add: searchKnowledgeBase_def searchKnowledgeBase_try_def)
  have d: "searchDocumentation ?up 5 ''password reset'' 3 = [?d]"
    by code_simp
  have r: "rankResults 10 [?d] ''password reset'' = Inr [?d\<lparr>score := 217\<rparr>]"
    by code_simp
  show ?thesis
    using adapter_failure_isolated [OF a b c o o, where t = 5 and now = 10
        and q' = "''password reset''" and l = 4 and e = AxiosError]
    by (simp add: Let_def limit_of_def z k d r t slice0_def)
qed

text \<open>
  C5, as the claim states it, fails in two ways. With limit 1 the help center fails for
  the plain query, the documentation and the knowledge base return one result each,
  and the response holds only the first of the two: the other adapter's result is not
  in it. And a help-center article without a title is not a failure to the adapter,
  which returns a result for it; the ranker then throws outside every adapter, and the
  request is answered with 500 although the documentation adapter had a result.
\<close>

theorem adapter_isolation_counterexample:
  "fst (unified_search
       (program_adapters
          \<lparr>help_center_search = (\<lambda>q l. if q = ''reset'' then ZFailed else ZResults
              [\<lparr>art_id = ''9'', art_title = Some ''Reset'', html_url = ''u'', body = None,
                art_score = Some 50, section_id = None, updated_at = None\<rparr>]),
           search_index = DIndex [\<lparr>doc_t = Some ''Reset'', doc_u = Some ''/reset'',
                                   doc_b = None, doc_i = ''7''\<rparr>]\<rparr> 0)
       0 \<lparr>req_query = JStr ''reset'', req_limit = Some 1, req_sources = None\<rparr>)
     = Success \<lparr>resp_success = True,
         resp_results =
           [\<lparr>res_id = ''docs_7'', title = Some ''Reset'',
             url = ''https://help.getmaintainx.com/reset'',
             snippet = ''Documentation - Reset'', content = Some ''Reset - '',
             score = 179, source = ''docs'', category = Some ''Documentation'',
             res_section = None, last_updated = Some 0\<rparr>],
         resp_total = 2, resp_returned = 1, resp_query = ''reset'',
         resp_sources = [''zendesk'', ''docs'', ''knowledge_base''],
         resp_api_version = ''unified_v1''\<rparr>
   \<and> map res_id (searchKnowledgeBase
       \<lparr>help_center_search = (\<lambda>q l. if q = ''reset'' then ZFailed else ZResults
           [\<lparr>art_id = ''9'', art_title = Some ''Reset'', html_url = ''u'', body = None,
             art_score = Some 50, section_id = None, updated_at = None\<rparr>]),
        search_index = DIndex [\<lparr>doc_t = Some ''Reset'', doc_u = Some ''/reset'',
                                doc_b = None, doc_i = ''7''\<rparr>]\<rparr> ''reset'' 1) = [''kb_9'']
   \<and> map res_id (searchZendesk
       \<lparr>help_center_search = (\<lambda>q l. ZResults
           [\<lparr>art_id = ''9'', art_title = None, html_url = ''u'', body = None,
             art_score = Some 50, section_id = None, updated_at = None\<rparr>]),
        search_index = DIndex [\<lparr>doc_t = Some ''Reset'', doc_u = Some ''/reset'',
                                doc_b = None, doc_i = ''7''\<rparr>]\<rparr> ''reset'' 4) = [''zendesk_9'']
   \<and> map res_id (searchDocumentation
       \<lparr>help_center_search = (\<lambda>q l. ZResults
           [\<lparr>art_id = ''9'', art_title = None, html_url = ''u'', body = None,
             art_score = Some 50, section_id = None, updated_at = None\<rparr>]),
        search_index = DIndex [\<lparr>doc_t = Some ''Reset'', doc_u = Some ''/reset'',
                                doc_b = None, doc_i = ''7''\<rparr>]\<rparr> 0 ''reset'' 3) = [''docs_7'']
   \<and> fst (unified_search
       (program_adapters
          \<lparr>help_center_search = (\<lambda>q l. ZResults
              [\<lparr>art_id = ''9'', art_title = None, html_url = ''u'', body = None,
                art_score = Some 50, section_id = None, updated_at = None\<rparr>]),
           search_index = DIndex [\<lparr>doc_t = Some ''Reset'', doc_u = Some ''/reset'',
                                   doc_b = None, doc_i = ''7''\<rparr>]\<rparr> 0)
       0 \<lparr>req_query = JStr ''reset'', req_limit = None, req_sources = None\<rparr>)
     = Server_Error \<lparr>fail_success = False, fail_error = ''Unified search service error''\<rparr>"
  by code_simp

section \<open>Scores and recency of adapter results\<close>

lemma rank_one_mono: "rank_one now q r = Inr r' \<Longrightarrow> score r \<le> score r'"
proof -
  assume a: "rank_one now q r = Inr r'"
  then obtain t where t: "title r = Some t" by (cases "title r") (auto simp: rank_one_def)
  from a rank_one_score [OF t, of now q] show ?thesis
    by (auto split: option.splits)
qed

lemma searchZendesk_nonneg:
  assumes "scores_nonneg (help_center_search up (trim q) l)"
    and "r \<in> set (searchZendesk up q l)"
  shows "0 \<le> score r"
  using assms
  by (auto simp: scores_nonneg_def searchZendesk_def searchZendesk_try_def zendesk_result_def
      list_all_iff split: zendesk_reply.splits option.splits)

lemma searchKnowledgeBase_nonneg:
  assumes "scores_nonneg (help_center_search up (kb_query q) l)"
    and "r \<in> set (searchKnowledgeBase up q l)"
  shows "0 \<le> score r"
  using assms
  by (auto simp: scores_nonneg_def searchKnowledgeBase_def searchKnowledgeBase_try_def
      kb_result_def list_all_iff split: zendesk_reply.splits option.splits)

lemma searchDocumentation_pos:
  assumes "r \<in> set (searchDocumentation up t q l)"
  shows "0 < score r"
  using searchDocumentation_entry [OF assms] doc_entry_fields(3) by blast

lemma rankResults_nonneg:
  assumes "\<forall>r\<in>set rs. 0 \<le> score r" and "rankResults now rs q = Inr ranked"
    and "r' \<in> set ranked"
  shows "0 \<le> score r'"
proof -
  from assms(2) obtain rescored where m: "map (rank_one now q) rs = map Inr rescored"
    and s: "ranked = array_sort (\<lambda>a b. score b - score a) rescored"
    by (auto simp: rankResults_Inr)
  from assms(3) s have "r' \<in> set rescored" by (simp add: set_array_sort)
  then have "Inr r' \<in> set (map (rank_one now q) rs)" unfolding m by simp
  then obtain r where "r \<in> set rs" and "rank_one now q r = Inr r'" by auto
  with assms(1) rank_one_mono [of now q r r'] show ?thesis by force
qed

text \<open>
  C9, as the code has it. The documentation adapter only returns results of positive
  score. The two help-center adapters copy the score of the upstream article (times
  0.8 for the knowledge base), so their results have no negative score when the
  upstream reply has none. The ranker never lowers a score, so a list without negative
  scores is ranked into a list without negative scores.
\<close>

theorem scores_nonneg_preserved:
  "(\<forall>r\<in>set (searchDocumentation up t q l). 0 \<le> score r)
   \<and> (scores_nonneg (help_center_search up (trim q) l)
      \<longrightarrow> (\<forall>r\<in>set (searchZendesk up q l). 0 \<le> score r))
   \<and> (scores_nonneg (help_center_search up (kb_query q) l)
      \<longrightarrow> (\<forall>r\<in>set (searchKnowledgeBase up q l). 0 \<le> score r))
   \<and> (rank_one now q r = Inr r' \<longrightarrow> score r \<le> score r')
   \<and> ((\<forall>r\<in>set rs. 0 \<le> score r) \<and> rankResults now rs q = Inr ranked
      \<longrightarrow> (\<forall>r\<in>set ranked. 0 \<le> score r))"
  using searchDocumentation_pos [of _ up t q l] searchZendesk_nonneg [of up q l]
    searchKnowledgeBase_nonneg [of up q l] rank_one_mono [of now q r r']
    rankResults_nonneg [of rs now q ranked]
  by (auto simp: less_imp_le)

theorem scores_nonneg_preserved_witness:
  "scores_nonneg (help_center_search
      \<lparr>help_center_search = (\<lambda>q l. ZResults
          [\<lparr>art_id = ''1'', art_title = Some ''Billing'', html_url = ''u'', body = None,
            art_score = Some 3, section_id = None, updated_at = None\<rparr>]),
        search_index = DFailed\<rparr> (trim ''reset'') 4)
   \<and> list_all (\<lambda>r. 0 \<le> score r) (searchZendesk
      \<lparr>help_center_search = (\<lambda>q l. ZResults
          [\<lparr>art_id = ''1'', art_title = Some ''Billing'', html_url = ''u'', body = None,
            art_score = Some 3, section_id = None, updated_at = None\<rparr>]),
        search_index = DFailed\<rparr> ''reset'' 4)
   \<and> rankResults 0 (searchZendesk
      \<lparr>help_center_search = (\<lambda>q l. ZResults
          [\<lparr>art_id = ''1'', art_title = Some ''Billing'', html_url = ''u'', body = None,
            art_score = Some 3, section_id = None, updated_at = None\<rparr>]),
        search_index = DFailed\<rparr> ''reset'' 4) ''reset''
      = Inr [\<lparr>res_id = ''zendesk_1'', title = Some ''Billing'', url = ''u'',
              snippet = ''No preview available'', content = None, score = 13,
              source = ''zendesk'', category = None, res_section = None,
              last_updated = None\<rparr>]
   \<and> list_all (\<lambda>r. 0 \<le> score r)
        [\<lparr>res_id = ''zendesk_1'', title = Some ''Billing'', url = ''u'',
          snippet = ''No preview available'', content = None, score = 13,
          source = ''zendesk'', category = None, res_section = None,
          last_updated = None\<rparr>]"
proof -
  let ?up = "\<lparr>help_center_search = (\<lambda>q l. ZResults
          [\<lparr>art_id = ''1'', art_title = Some ''Billing'', html_url = ''u'', body = None,
            art_score = Some 3, section_id = None, updated_at = None\<rparr>]),
        search_index = DFailed\<rparr>"
  let ?ranked = "[\<lparr>res_id = ''zendesk_1'', title = Some ''Billing'', url = ''u'',
          snippet = ''No preview available'', content = None, score = 13,
          source = ''zendesk'', category = None, res_section = None,
          last_updated = None\<rparr>]"
  have a: "scores_nonneg (help_center_search ?up (trim ''reset'') 4)"
    by (simp add: scores_nonneg_def)
  have e: "rankResults 0 (searchZendesk ?up ''reset'' 4) ''reset'' = Inr ?ranked"
    by code_simp
  from scores_nonneg_preserved [where up = ?up and q = "''reset''" and l = 4
      and rs = "searchZendesk ?up ''reset'' 4" and now = 0 and ranked = ?ranked] a e
  have "(\<forall>r\<in>set (searchZendesk ?up ''reset'' 4). 0 \<le> score r)
      \<and> (\<forall>r\<in>set ?ranked. 0 \<le> score r)"
    by blast
  with a e show ?thesis by (simp add: list_all_iff)
qed

text \<open>
  C9, as the claim states it, fails when the help center reports a negative score: the
  adapter copies \<open>-100\<close>, and the ranker's boost of 10 leaves \<open>-90\<close>.
\<close>

theorem negative_score_counterexample:
  "map score (searchZendesk
      \<lparr>help_center_search = (\<lambda>q l. ZResults
          [\<lparr>art_id = ''1'', art_title = Some ''Billing'', html_url = ''u'', body = None,
            art_score = Some (- 100), section_id = None, updated_at = None\<rparr>]),
        search_index = DFailed\<rparr> ''reset'' 4) = [- 100]
   \<and> map_sum id (map score) (rankResults 0 (searchZendesk
      \<lparr>help_center_search = (\<lambda>q l. ZResults
          [\<lparr>art_id = ''1'', art_title = Some ''Billing'', html_url = ''u'', body = None,
            art_score = Some (- 100), section_id = None, updated_at = None\<rparr>]),
        search_index = DFailed\<rparr> ''reset'' 4) ''reset'') = Inr [- 90]"
  by code_simp

text \<open>
  C10. Every result of the documentation adapter carries the time \<open>t\<close> at which the
  adapter ran as its \<open>last_updated\<close>; when the ranker runs less than seven days after
  that, as it does within one request, the ranker rescores the result with both
  recency boosts, 15 in all, on top of the title boosts and the source priority 6.
\<close>

theorem docs_results_recent:
  assumes "r \<in> set (searchDocumentation up t q l)" and "now - t < 7 * 86400000"
  shows "last_updated r = Some t
       \<and> (\<exists>r'. rank_one now query r = Inr r'
            \<and> score r' =
               score r
               + 20 * of_nat (length (filter (\<lambda>w. str_includes (toLowerCase (title_text r)) w)
                   (filter (\<lambda>w. 2 < length w) (split_space (toLowerCase query)))))
               + (if str_includes (toLowerCase (title_text r)) (toLowerCase query) then 30 else 0)
               + 6 + 15)"
proof -
  from assms(1) obtain ql qw d where "doc_entry t ql qw d = Some r"
    using searchDocumentation_entry by blast
  then have u: "last_updated r = Some t" and s: "source r = ''docs''" and "title r \<noteq> None"
    by (rule doc_entry_fields)+
  then obtain tt where tt: "title r = Some tt" by auto
  then have "title_text r = tt" by (simp add: title_text_def)
  with rank_one_score [OF tt, of now query] u s assms(2) show ?thesis by simp
qed

theorem docs_results_recent_witness:
  "\<lparr>res_id = ''docs_7'', title = Some ''Password Reset Guide'',
     url = ''https://help.getmaintainx.com/reset'',
     snippet = ''Account - Password Reset Guide'',
     content = Some ''Password Reset Guide - Account'',
     score = 126, source = ''docs'', category = Some ''Account'',
     res_section = None, last_updated = Some 5\<rparr>
   \<in> set (searchDocumentation
       \<lparr>help_center_search = (\<lambda>q l. ZFailed),
        search_index = DIndex [\<lparr>doc_t = Some ''Password Reset Guide'', doc_u = Some ''/reset'',
                                doc_b = Some [''Account''], doc_i = ''7''\<rparr>]\<rparr>
       5 ''password reset'' 3)
   \<and> (10 :: int) - 5 < 7 * 86400000
   \<and> map_sum id score (rank_one 10 ''password reset''
       \<lparr>res_id = ''docs_7'', title = Some ''Password Reset Guide'',
         url = ''https://help.getmaintainx.com/reset'',
         snippet = ''Account - Password Reset Guide'',
         content = Some ''Password Reset Guide - Account'',
         score = 126, source = ''docs'', category = Some ''Account'',
         res_section = None, last_updated = Some 5\<rparr>) = Inr (126 + 40 + 30 + 6 + 15)"
proof -
  let ?up = "\<lparr>help_center_search = (\<lambda>q l. ZFailed),
        search_index = DIndex [\<lparr>doc_t = Some ''Password Reset Guide'', doc_u = Some ''/reset'',
                                doc_b = Some [''Account''], doc_i = ''7''\<rparr>]\<rparr>"
  let ?d = "\<lparr>res_id = ''docs_7'', title = Some ''Password Reset Guide'',
     url = ''https://help.getmaintainx.com/reset'',
     snippet = ''Account - Password Reset Guide'',
     content = Some ''Password Reset Guide - Account'',
     score = 126, source = ''docs'', category = Some ''Account'',
     res_section = None, last_updated = Some 5\<rparr>"
  have d: "searchDocumentation ?up 5 ''password reset'' 3 = [?d]"
    by code_simp
  then have m: "?d \<in> set (searchDocumentation ?up 5 ''password reset'' 3)"
    by simp
  have a: "(10 :: int) - 5 < 7 * 86400000" by simp
  have e: "map_sum id score (rank_one 10 ''password reset'' ?d) = Inr 217"
    by code_simp
  from docs_results_recent [OF m a, of "''password reset''"] m e show ?thesis
    by simp
qed

section \<open>The text normalizer\<close>

lemma lastIndexOf_lower: "- 1 \<le> lastIndexOf s c"
  by (induction s) (auto simp: Let_def)

lemma lastIndexOf_found:
  "0 \<le> lastIndexOf s c \<Longrightarrow>
     nat (lastIndexOf s c) < length s \<and> s ! nat (lastIndexOf s c) = c"
proof (induction s)
  case Nil
  then show ?case by simp
next
  case (Cons x xs)
  show ?case
  proof (cases "0 \<le> lastIndexOf xs c")
    case True
    with Cons.IH have "nat (lastIndexOf xs c) < length xs" "xs ! nat (lastIndexOf xs c) = c"
      by auto
    moreover from True have "nat (lastIndexOf xs c + 1) = Suc (nat (lastIndexOf xs c))"
      by simp
    ultimately show ?thesis using True by (simp add: Let_def)
  next
    case False
    with Cons.prems show ?thesis by (auto simp: Let_def split: if_splits)
  qed
qed

lemma lastIndexOf_greatest:
  "i < length s \<Longrightarrow> s ! i = c \<Longrightarrow> int i \<le> lastIndexOf s c"
proof (induction s arbitrary: i)
  case Nil
  then show ?case by simp
next
  case (Cons x xs)
  show ?case
  proof (cases i)
    case 0
    with Cons.prems lastIndexOf_lower [of xs c] show ?thesis by (auto simp: Let_def)
  next
    case (Suc k)
    with Cons.prems have "k < length xs" "xs ! k = c" by auto
    then have "int k \<le> lastIndexOf xs c" by (rule Cons.IH)
    with Suc show ?thesis by (simp add: Let_def)
  qed
qed

lemma beyond_70_percent:
  "((of_nat m :: rat) * (7 / 10) < of_int (int i)) = (7 * m < 10 * i)"
proof -
  have "((of_nat m :: rat) * (7 / 10) < of_int (int i)) = ((of_nat (7 * m) :: rat) < of_nat (10 * i))"
    by (simp add: mult.commute)
  also have "\<dots> = (7 * m < 10 * i)" by (simp only: of_nat_less_iff)
  finally show ?thesis .
qed


lemma within_70_percent:
  "(\<not> (of_nat m :: rat) * (7 / 10) < of_int k) \<Longrightarrow> int i \<le> k \<Longrightarrow> 10 * i \<le> 7 * m"
proof -
  assume a: "\<not> (of_nat m :: rat) * (7 / 10) < of_int k" and b: "int i \<le> k"
  from b have "(of_int (int i) :: rat) \<le> of_int k" by (simp only: of_int_le_iff)
  with a have "\<not> (of_nat m :: rat) * (7 / 10) < of_int (int i)" by linarith
  then show ?thesis by (simp add: beyond_70_percent)
qed

text \<open>
  C7. When the normalized text is longer than \<open>maxLength\<close>, the snippet is a prefix of
  it followed by the ellipsis \<open>...\<close>: if the last space among the first \<open>maxLength\<close>
  characters stands at an index beyond seven tenths of \<open>maxLength\<close>, the prefix ends
  just before that space; if there is no space beyond seven tenths of \<open>maxLength\<close>,
  the prefix is the first \<open>maxLength\<close> characters.
\<close>

theorem snippet_truncation:
  assumes "maxLength < length (clean_text h)"
  shows "(\<exists>i. i < maxLength \<and> clean_text h ! i = CHR '' ''
            \<and> (\<forall>j. i < j \<and> j < maxLength \<longrightarrow> clean_text h ! j \<noteq> CHR '' '')
            \<and> 7 * maxLength < 10 * i
            \<and> stripHtmlAndCreateSnippet (Some h) maxLength = take i (clean_text h) @ ''...'')
       \<or> ((\<forall>i. i < maxLength \<and> clean_text h ! i = CHR '' '' \<longrightarrow> 10 * i \<le> 7 * maxLength)
          \<and> stripHtmlAndCreateSnippet (Some h) maxLength
              = take maxLength (clean_text h) @ ''...'')"
proof -
  define c where "c = clean_text h"
  define tr where "tr = take maxLength c"
  define idx where "idx = lastIndexOf tr CHR '' ''"
  have "clean_text [] = []" by (simp add: clean_text_def trim_def)
  with assms have ne: "h \<noteq> []" by auto
  have len: "length tr = maxLength" using assms by (simp add: tr_def c_def)
  have nth: "tr ! j = c ! j" if "j < maxLength" for j
    using that by (simp add: tr_def)
  have unfold: "stripHtmlAndCreateSnippet (Some h) maxLength =
      (if (of_nat maxLength :: rat) * (7 / 10) < of_int idx
       then take (nat idx) tr @ ''...'' else tr @ ''...'')"
    using assms ne by (simp add: stripHtmlAndCreateSnippet_def Let_def idx_def tr_def c_def)
  show ?thesis
  proof (cases "(of_nat maxLength :: rat) * (7 / 10) < of_int idx")
    case True
    have "(0 :: rat) \<le> of_nat maxLength * (7 / 10)" by simp
    with True have "(0 :: rat) < of_int idx" by linarith
    then have pos: "0 \<le> idx" by simp
    define i where "i = nat idx"
    from pos have idx: "idx = int i" by (simp add: i_def)
    from lastIndexOf_found [of tr "CHR '' ''"] pos len
    have i: "i < maxLength" "tr ! i = CHR '' ''" by (auto simp: idx_def i_def)
    then have ci: "c ! i = CHR '' ''" by (simp add: nth)
    have last: "c ! j \<noteq> CHR '' ''" if "i < j" "j < maxLength" for j
    proof
      assume "c ! j = CHR '' ''"
      with that have "j < length tr" "tr ! j = CHR '' ''" using len by (auto simp: nth)
      then have "int j \<le> idx" unfolding idx_def by (rule lastIndexOf_greatest)
      with that(1) idx show False by linarith
    qed
    from True have far: "7 * maxLength < 10 * i"
      by (simp only: idx beyond_70_percent)
    have "take (nat idx) tr = take i c" using i(1) by (simp add: tr_def i_def min_def)
    with unfold True have "stripHtmlAndCreateSnippet (Some h) maxLength = take i c @ ''...''"
      by simp
    with i(1) ci last far show ?thesis unfolding c_def by blast
  next
    case False
    have near: "10 * i \<le> 7 * maxLength" if "i < maxLength" "c ! i = CHR '' ''" for i
    proof -
      from that have "i < length tr" "tr ! i = CHR '' ''" using len by (auto simp: nth)
      then have "int i \<le> idx" unfolding idx_def by (rule lastIndexOf_greatest)
      with False show ?thesis by (rule within_70_percent)
    qed
    from unfold False have "stripHtmlAndCreateSnippet (Some h) maxLength = take maxLength c @ ''...''"
      by (simp add: tr_def)
    with near show ?thesis unfolding c_def by blast
  qed
qed

theorem snippet_truncation_witness:
  "10 < length (clean_text ''aaaa bbbb cccc dddd'')
   \<and> stripHtmlAndCreateSnippet (Some ''aaaa bbbb cccc dddd'') 10 = ''aaaa bbbb...''"
proof -
  have b: "10 < length (clean_text ''aaaa bbbb cccc dddd'')" by code_simp
  have c: "stripHtmlAndCreateSnippet (Some ''aaaa bbbb cccc dddd'') 10 = ''aaaa bbbb...''"
    by code_simp
  from snippet_truncation [OF b] b c show ?thesis by simp
qed

lemma strip_tags_plain: "\<not> has_tag s \<Longrightarrow> strip_tags s = s"
  by (induction s) auto

lemma replace_all_absent: "\<not> str_includes s pat \<Longrightarrow> replace_all pat rep s = s"
  by (induction s) auto

lemma clean_text_plain: "\<not> has_markup s \<Longrightarrow> clean_text s = trim (collapse_ws s)"
  by (simp add: has_markup_def clean_text_def strip_tags_plain replace_all_absent)

lemma length_collapse_ws: "length (collapse_ws s) \<le> length s"
proof (induction s rule: collapse_ws.induct)
  case 1
  then show ?case by simp
next
  case (2 c cs)
  have "length (dropWhile isSpace cs) \<le> length cs" by (rule length_dropWhile_le)
  with 2 show ?case by (auto simp: le_Suc_eq)
qed

lemma length_trim: "length (trim s) \<le> length s"
proof -
  have "length (dropWhile isSpace (rev (dropWhile isSpace s))) \<le> length (rev (dropWhile isSpace s))"
    by (rule length_dropWhile_le)
  also have "\<dots> \<le> length s" by (simp add: length_dropWhile_le)
  finally show ?thesis by (simp add: trim_def)
qed

lemma collapse_ws_single_spaced: "single_spaced s \<Longrightarrow> collapse_ws s = s"
  by (induction s rule: single_spaced.induct) auto

text \<open>
  C8, as the code has it. For a string without markup that is no longer than
  \<open>maxLength\<close>, the normalizer returns the text with every run of white space
  collapsed to one space and then trimmed, or the placeholder when nothing is left.
  So it returns the trimmed text itself when the text is not blank and its white space
  is single space characters only.
\<close>

theorem plain_text_normalized:
  assumes "\<not> has_markup s" and "length s \<le> maxLength"
  shows "stripHtmlAndCreateSnippet (Some s) maxLength =
           (if trim (collapse_ws s) = [] then no_preview else trim (collapse_ws s))
       \<and> (single_spaced s \<and> trim s \<noteq> []
          \<longrightarrow> stripHtmlAndCreateSnippet (Some s) maxLength = trim s)"
proof -
  have c: "clean_text s = trim (collapse_ws s)"
    using assms(1) by (rule clean_text_plain)
  have "length (trim (collapse_ws s)) \<le> length (collapse_ws s)" by (rule length_trim)
  also have "\<dots> \<le> length s" by (rule length_collapse_ws)
  finally have l: "\<not> maxLength < length (trim (collapse_ws s))" using assms(2) by simp
  have e: "trim (collapse_ws []) = []" by (simp add: trim_def)
  have r: "stripHtmlAndCreateSnippet (Some s) maxLength =
           (if trim (collapse_ws s) = [] then no_preview else trim (collapse_ws s))"
    using l e by (cases "s = []") (simp_all add: stripHtmlAndCreateSnippet_def Let_def c)
  then show ?thesis by (auto simp: collapse_ws_single_spaced)
qed

theorem plain_text_normalized_witness:
  "\<not> has_markup '' reset  your password '' \<and> length '' reset  your password '' \<le> 200
   \<and> stripHtmlAndCreateSnippet (Some '' reset  your password '') 200 = ''reset your password''
   \<and> stripHtmlAndCreateSnippet (Some '' reset your password '') 200 = trim '' reset your password ''"
proof -
  have a: "\<not> has_markup '' reset  your password ''" by code_simp
  have b: "length '' reset  your password '' \<le> 200" by simp
  have a': "\<not> has_markup '' reset your password ''" by code_simp
  have b': "length '' reset your password '' \<le> 200" by simp
  have c: "single_spaced '' reset your password ''" by code_simp
  have d: "trim '' reset your password '' \<noteq> []" by code_simp
  have e: "trim (collapse_ws '' reset  your password '') = ''reset your password''" by code_simp
  from plain_text_normalized [OF a b] plain_text_normalized [OF a' b'] a b c d e
  show ?thesis by simp
qed

text \<open>
  C8, as the claim states it, fails for a text with two spaces in a row: the normalizer
  returns it with one space, which is not the trimmed text.
\<close>

theorem collapsed_space_counterexample:
  "\<not> has_markup ''a  b'' \<and> length ''a  b'' < 200
   \<and> stripHtmlAndCreateSnippet (Some ''a  b'') 200 = ''a b''
   \<and> trim ''a  b'' = ''a  b''"
  by code_simp

section \<open>The documentation adapter\<close>

lemma doc_score_foldl:
  "foldl (\<lambda>sc word.
            (let sc' = (if str_includes tt word then sc + 20 else sc)
             in if str_includes bt word then sc' + 10 else sc'))
     (a :: int) ws
   = a + sum_list (map (\<lambda>w. (if str_includes tt w then 20 else 0)
                              + (if str_includes bt w then 10 else 0)) ws)"
  by (induction ws arbitrary: a) (auto simp: Let_def)

lemma doc_score_closed:
  "doc_score ql qw (toLowerCase t) (toLowerCase (join '' '' b)) = lexical_score ql qw t b"
  by (simp only: doc_score_def lexical_score_def doc_score_foldl) (simp add: Let_def)

lemma doc_entry_titled:
  "(doc_entry now ql qw d \<noteq> None)
     = (titled d \<and> 0 < lexical_score ql qw (doc_title d) (doc_breadcrumbs d))"
proof (cases "doc_b d")
  case None
  have "toLowerCase (join '' '' []) = []" by (simp add: toLowerCase_def)
  with None show ?thesis
    using doc_score_closed [of ql qw _ "[]"]
    by (auto simp: doc_entry_def titled_def doc_title_def doc_breadcrumbs_def Let_def
        split: option.splits)
next
  case (Some b)
  then show ?thesis
    by (auto simp: doc_entry_def titled_def doc_title_def doc_breadcrumbs_def Let_def
        doc_score_closed split: option.splits)
qed

lemma doc_entry_result:
  assumes "doc_entry now ql qw d = Some r"
  shows "title r = Some (doc_title d)"
    and "score r = of_int (lexical_score ql qw (doc_title d) (doc_breadcrumbs d)) * (9 / 10)"
proof -
  have e: "toLowerCase (join '' '' []) = []" by (simp add: toLowerCase_def)
  show "title r = Some (doc_title d)"
    using assms
    by (auto simp: doc_entry_def doc_title_def Let_def split: option.splits if_splits)
  show "score r = of_int (lexical_score ql qw (doc_title d) (doc_breadcrumbs d)) * (9 / 10)"
    using assms e doc_score_closed [of ql qw _ "[]"]
    by (cases "doc_b d")
      (auto simp: doc_entry_def doc_title_def doc_breadcrumbs_def Let_def doc_score_closed
        split: option.splits if_splits)
qed

lemma map_filter_doc_entry:
  "map (\<lambda>r. (title r, score r)) (List.map_filter (doc_entry now ql qw) docs)
   = map (\<lambda>d. (Some (doc_title d),
                of_int (lexical_score ql qw (doc_title d) (doc_breadcrumbs d)) * (9 / 10)))
       (filter (\<lambda>d. titled d \<and> 0 < lexical_score ql qw (doc_title d) (doc_breadcrumbs d)) docs)"
proof (induction docs)
  case Nil
  then show ?case by simp
next
  case (Cons d docs)
  show ?case
  proof (cases "doc_entry now ql qw d")
    case None
    with doc_entry_titled [of now ql qw d] Cons show ?thesis
      by simp
  next
    case (Some r)
    with doc_entry_titled [of now ql qw d] doc_entry_result [OF Some] Cons show ?thesis
      by simp
  qed
qed

text \<open>
  C6, as the code has it. The lexical score of a document with a title and a URL is
  100 if the lowercase title contains the lowercase query with its leading and
  trailing white space removed, plus 50 if the lowercase breadcrumb text (the segments
  joined by spaces) contains it, plus, for each word of that trimmed query longer than
  2 characters, 20 if the title contains the word and 10 if the breadcrumb text does.
  The adapter keeps the documents of positive lexical score, gives each the score
  nine tenths of its lexical score, sorts them by descending score and returns the
  first \<open>limit\<close> of them.
\<close>

theorem docs_lexical_ranking:
  assumes "search_index up = DIndex docs"
  shows "\<exists>S. searchDocumentation up now q limit = slice0 S limit
           \<and> sorted_wrt (\<lambda>a b. score b \<le> score a) S
           \<and> mset (map (\<lambda>r. (title r, score r)) S)
             = mset (map (\<lambda>d. (Some (doc_title d),
                    of_int (trimmed_lexical_score q (doc_title d) (doc_breadcrumbs d)) * (9 / 10)))
                 (filter (\<lambda>d. titled d
                      \<and> 0 < trimmed_lexical_score q (doc_title d) (doc_breadcrumbs d)) docs))"
proof -
  define ql where "ql = trim (toLowerCase q)"
  define qw where "qw = filter (\<lambda>word. 2 < length word) (split_ws ql)"
  define U where "U = List.map_filter (doc_entry now ql qw) docs"
  define S where "S = array_sort (\<lambda>a b. score b - score a) U"
  have t: "trimmed_lexical_score q t b = lexical_score ql qw t b" for t b
    by (simp add: trimmed_lexical_score_def ql_def qw_def)
  have 1: "searchDocumentation up now q limit = slice0 S limit"
    using assms
    by (simp add: searchDocumentation_def searchDocumentation_try_def Let_def
        S_def U_def qw_def ql_def)
  have 2: "sorted_wrt (\<lambda>a b. score b \<le> score a) S"
    unfolding S_def by (rule array_sort_sorted)
  have "mset S = mset U" unfolding S_def by (rule array_sort_mset)
  then have "mset (map (\<lambda>r. (title r, score r)) S) = mset (map (\<lambda>r. (title r, score r)) U)"
    by (simp only: mset_map)
  then have 3: "mset (map (\<lambda>r. (title r, score r)) S)
             = mset (map (\<lambda>d. (Some (doc_title d),
                    of_int (trimmed_lexical_score q (doc_title d) (doc_breadcrumbs d)) * (9 / 10)))
                 (filter (\<lambda>d. titled d
                      \<and> 0 < trimmed_lexical_score q (doc_title d) (doc_breadcrumbs d)) docs))"
    by (simp only: U_def map_filter_doc_entry t)
  from 1 2 3 show ?thesis by blast
qed


theorem docs_lexical_ranking_witness:
  "search_index
     \<lparr>help_center_search = (\<lambda>q l. ZFailed),
      search_index = DIndex
        [\<lparr>doc_t = Some ''Reset'', doc_u = Some ''/r'', doc_b = Some [''Password reset''],
          doc_i = ''1''\<rparr>,
         \<lparr>doc_t = Some ''Billing'', doc_u = Some ''/b'', doc_b = None, doc_i = ''2''\<rparr>,
         \<lparr>doc_t = Some ''Password Reset Guide'', doc_u = Some ''/g'', doc_b = Some [''Account''],
          doc_i = ''3''\<rparr>]\<rparr>
   = DIndex
        [\<lparr>doc_t = Some ''Reset'', doc_u = Some ''/r'', doc_b = Some [''Password reset''],
          doc_i = ''1''\<rparr>,
         \<lparr>doc_t = Some ''Billing'', doc_u = Some ''/b'', doc_b = None, doc_i = ''2''\<rparr>,
         \<lparr>doc_t = Some ''Password Reset Guide'', doc_u = Some ''/g'', doc_b = Some [''Account''],
          doc_i = ''3''\<rparr>]
   \<and> map (\<lambda>r. (title r, score r)) (searchDocumentation
     \<lparr>help_center_search = (\<lambda>q l. ZFailed),
      search_index = DIndex
        [\<lparr>doc_t = Some ''Reset'', doc_u = Some ''/r'', doc_b = Some [''Password reset''],
          doc_i = ''1''\<rparr>,
         \<lparr>doc_t = Some ''Billing'', doc_u = Some ''/b'', doc_b = None, doc_i = ''2''\<rparr>,
         \<lparr>doc_t = Some ''Password Reset Guide'', doc_u = Some ''/g'', doc_b = Some [''Account''],
          doc_i = ''3''\<rparr>]\<rparr> 0 ''password reset'' 3)
     = [(Some ''Password Reset Guide'', 126), (Some ''Reset'', 81)]
   \<and> map (\<lambda>r. (title r, score r)) (searchDocumentation
     \<lparr>help_center_search = (\<lambda>q l. ZFailed),
      search_index = DIndex
        [\<lparr>doc_t = Some ''Reset'', doc_u = Some ''/r'', doc_b = Some [''Password reset''],
          doc_i = ''1''\<rparr>,
         \<lparr>doc_t = Some ''Billing'', doc_u = Some ''/b'', doc_b = None, doc_i = ''2''\<rparr>,
         \<lparr>doc_t = Some ''Password Reset Guide'', doc_u = Some ''/g'', doc_b = Some [''Account''],
          doc_i = ''3''\<rparr>]\<rparr> 0 ''password reset'' 1)
     = [(Some ''Password Reset Guide'', 126)]"
proof -
  let ?docs = "[\<lparr>doc_t = Some ''Reset'', doc_u = Some ''/r'', doc_b = Some [''Password reset''],
          doc_i = ''1''\<rparr>,
         \<lparr>doc_t = Some ''Billing'', doc_u = Some ''/b'', doc_b = None, doc_i = ''2''\<rparr>,
         \<lparr>doc_t = Some ''Password Reset Guide'', doc_u = Some ''/g'', doc_b = Some [''Account''],
          doc_i = ''3''\<rparr>]"
  let ?up = "\<lparr>help_center_search = (\<lambda>q l. ZFailed), search_index = DIndex ?docs\<rparr>"
  have a: "search_index ?up = DIndex ?docs" by simp
  have b: "map (\<lambda>r. (title r, score r)) (searchDocumentation ?up 0 ''password reset'' 3)
     = [(Some ''Password Reset Guide'', 126), (Some ''Reset'', 81)]"
    by code_simp
  have c: "map (\<lambda>r. (title r, score r)) (searchDocumentation ?up 0 ''password reset'' 1)
     = [(Some ''Password Reset Guide'', 126)]"
    by code_simp
  from docs_lexical_ranking [OF a, of 0 "''password reset''" 3] a b c show ?thesis by simp
qed

text \<open>
  C6, as the claim states it, fails for a query with leading white space: the code
  trims the query before looking for it in the title, so the title \<open>Password Reset Guide\<close>
  gets 100 + 20 for the query \<open> password\<close>, where the untrimmed phrase is not in
  the title and only the word would count.
\<close>

theorem untrimmed_query_counterexample:
  "map score (searchDocumentation
     \<lparr>help_center_search = (\<lambda>q l. ZFailed),
      search_index = DIndex
        [\<lparr>doc_t = Some ''Password Reset Guide'', doc_u = Some ''/g'', doc_b = None,
          doc_i = ''3''\<rparr>]\<rparr> 0 '' password'' 3) = [108]
   \<and> (of_int (spec_lexical_score '' password'' ''Password Reset Guide'' []) :: rat) * (9 / 10) = 18"
  by code_simp

end
